theory Spec2Isabelle
  imports Main
begin

section \<open>JavaScript values\<close>

text \<open>
  The library is TypeScript over untyped JavaScript data (\<open>any\<close>).  A value is
  modelled as a tree.  Numbers are kept abstract (type \<open>'n\<close>): the library never
  computes with them, it only prints them (\<open>String\<close>) and parses them (\<open>Number\<close>);
  \<open>NaN\<close> is a constructor of its own, so a value \<open>Num n\<close> is never NaN.

  \<^item> \<open>DateV t\<close> is a \<open>Date\<close> object; \<open>t\<close> is its time value in milliseconds,
    \<open>None\<close> for an Invalid Date.
  \<^item> \<open>FileV name size type\<close> and \<open>BlobV size type\<close> are \<open>File\<close> and \<open>Blob\<close>
    objects (contents are opaque).
  \<^item> \<open>ErrorV name message\<close> is an instance of \<open>Error\<close> or of a subclass.
  \<^item> \<open>Arr xs ps\<close> is an array with elements \<open>xs\<close> and further named (non-index)
    own properties \<open>ps\<close>.  An element \<open>Hole\<close> is an index the array does not
    have (a hole); reading it gives \<open>undefined\<close>.  \<open>Hole\<close> is no value of
    JavaScript and stands nowhere else.
  \<^item> \<open>Obj kvs\<close> is a plain object (\<open>constructor === Object\<close> unless an own
    property shadows it): its own enumerable string-keyed properties, with
    distinct keys, in the order \<open>Object.keys\<close> lists them.

  A string is the list of the bytes of its WTF-8 encoding: UTF-8, in which a
  surrogate code unit outside a pair is written as the three bytes of its code
  point (\<open>ED A0 80\<close> to \<open>ED BF BF\<close>).  An ASCII character is one byte, and that
  byte occurs in the encoding of no other character.  Functions, symbols,
  bigints and instances of other classes are outside the model: no value of
  the model is callable.
\<close>

datatype 'n jsval =
    Undefined
  | Null
  | Bool bool
  | NaN
  | Num 'n
  | Str string
  | DateV "int option"
  | FileV string 'n string
  | BlobV 'n string
  | ErrorV string string
  | Arr "'n jsval list" "(string \<times> 'n jsval) list"
  | Obj "(string \<times> 'n jsval) list"
  | Hole

text \<open>Exceptions the engine itself raises.\<close>

datatype exn_kind = TypeError | RangeError

text \<open>
  What the library takes from the JavaScript runtime, as parameters:
  \<^item> \<open>toNumber s\<close> is \<open>Number(s)\<close> on a string, \<open>None\<close> when the result is NaN;
  \<^item> \<open>numToString n\<close> is \<open>String(n)\<close> on a number that is not NaN;
  \<^item> \<open>numIsZero n\<close> says that \<open>n\<close> is \<open>0\<close> or \<open>-0\<close>, the falsy numbers besides NaN;
  \<^item> \<open>parseDate s\<close> is the time value of \<open>new Date(s)\<close>;
  \<^item> \<open>toISOString t\<close> is \<open>d.toISOString()\<close> for a valid time value;
  \<^item> \<open>dateToString t\<close> is \<open>String(d)\<close> for a valid time value;
  \<^item> \<open>stringChars s\<close> lists the one-unit strings \<open>s[0]\<close>, \<open>s[1]\<close>, ... of a string;
  \<^item> \<open>numOfNat l\<close> is the number \<open>l\<close>, and \<open>lengthOf n\<close> is the array length that
    the number \<open>n\<close> denotes, \<open>None\<close> unless \<open>n\<close> is an integer from \<open>0\<close> to
    \<open>2^32 - 1\<close>;
  \<^item> \<open>objectProto k\<close> and \<open>arrayProto k\<close> say that \<open>k\<close> names a member that
    plain objects, respectively arrays, inherit from their prototype chain;
  \<^item> \<open>viaInherited isArray member keys v\<close> is the rest of a walk of
    \<open>setNestedValue\<close> that has stepped from a plain object (from an array when
    \<open>isArray\<close>) into the member it inherits under the name \<open>member\<close>: from
    there the walk goes along \<open>keys\<close> through built-in objects and assigns
    \<open>v\<close> at its end.  The result is \<open>Some e\<close> when the engine raises \<open>e\<close> on
    the way, and \<open>None\<close> when the walk completes: then it has written into a
    built-in object;
  \<^item> \<open>engineMessage e\<close> is the message text of an engine exception.
  The built-in objects are those of a fresh realm each time a function of the
  library is entered.
\<close>

record 'n builtins =
  toNumber :: "string \<Rightarrow> 'n option"
  numToString :: "'n \<Rightarrow> string"
  numIsZero :: "'n \<Rightarrow> bool"
  parseDate :: "string \<Rightarrow> int option"
  toISOString :: "int \<Rightarrow> string"
  dateToString :: "int \<Rightarrow> string"
  stringChars :: "string \<Rightarrow> string list"
  numOfNat :: "nat \<Rightarrow> 'n"
  lengthOf :: "'n \<Rightarrow> nat option"
  objectProto :: "string \<Rightarrow> bool"
  arrayProto :: "string \<Rightarrow> bool"
  viaInherited :: "bool \<Rightarrow> string \<Rightarrow> string list \<Rightarrow> 'n jsval \<Rightarrow> exn_kind option"
  engineMessage :: "exn_kind \<Rightarrow> string"

text \<open>
  A computation either completes with a value or ends abruptly: with a thrown
  value, or at an effect on an object whose state the value tree does not
  hold (\<open>Unmodelled\<close>).  There are three such effects, all in the decoder: a
  write into a built-in object, reached through an inherited member; the
  replacement of a prototype through the \<open>__proto__\<close> setter; a property
  looked up or set on a \<open>Date\<close>, \<open>File\<close>, \<open>Blob\<close> or \<open>Error\<close>.
\<close>

datatype 'n abrupt = Throw "'n jsval" | Unmodelled

type_synonym ('n, 'a) comp = "'n abrupt + 'a"

definition engineError :: "'n builtins \<Rightarrow> exn_kind \<Rightarrow> 'n jsval" where
  "engineError js e =
     ErrorV (case e of TypeError \<Rightarrow> ''TypeError'' | RangeError \<Rightarrow> ''RangeError'')
            (engineMessage js e)"

definition throwEngine :: "'n builtins \<Rightarrow> exn_kind \<Rightarrow> ('n, 'a) comp" where
  "throwEngine js e = Inl (Throw (engineError js e))"

definition andThen :: "('n, 'a) comp \<Rightarrow> ('a \<Rightarrow> ('n, 'b) comp) \<Rightarrow> ('n, 'b) comp" where
  "andThen m f = (case m of Inl e \<Rightarrow> Inl e | Inr a \<Rightarrow> f a)"

subsection \<open>Decimal numerals and array indices\<close>

definition digit_char :: "nat \<Rightarrow> char" where
  "digit_char d = ''0123456789'' ! d"

fun nat_str :: "nat \<Rightarrow> string" where
  "nat_str n = (if n < 10 then [digit_char n] else nat_str (n div 10) @ [digit_char (n mod 10)])"

definition is_digit :: "char \<Rightarrow> bool" where
  "is_digit c = (48 \<le> (of_char c :: nat) \<and> (of_char c :: nat) \<le> 57)"

definition parse_nat :: "string \<Rightarrow> nat option" where
  "parse_nat s =
     (if s \<noteq> [] \<and> list_all is_digit s
      then Some (foldl (\<lambda>a c. 10 * a + ((of_char c :: nat) - 48)) 0 s) else None)"

text \<open>
  An array index is the canonical decimal spelling of an integer below \<open>2^32 - 1\<close>;
  any other property name of an array is a named property.
\<close>

definition array_index :: "string \<Rightarrow> nat option" where
  "array_index s =
     (case parse_nat s of
        None \<Rightarrow> None
      | Some n \<Rightarrow> if nat_str n = s \<and> n < 4294967295 then Some n else None)"


subsection \<open>The Flat Transport (\<open>FormData\<close>)\<close>

text \<open>
  A \<open>FormData\<close> is an ordered list of entries; an entry value is a string or a
  \<open>File\<close> (\<open>append\<close> stores a \<open>Blob\<close> as a \<open>File\<close> named \<open>blob\<close>).
\<close>

datatype 'n entry = EStr string | EFile string 'n string

type_synonym 'n formdata = "(string \<times> 'n entry) list"

text \<open>
  \<open>append(name, value)\<close> takes the name and a string value as scalar value
  strings: every surrogate outside a pair is replaced by U+FFFD (bytes
  \<open>EF BF BD\<close>).  In WTF-8 the surrogates outside a pair are exactly the
  three-byte sequences that start with \<open>ED\<close> and a byte from \<open>A0\<close> to \<open>BF\<close>.
\<close>

fun toUSVString :: "string \<Rightarrow> string" where
  "toUSVString (b0 # b1 # b2 # bs) =
     (if (of_char b0 :: nat) = 237 \<and> 160 \<le> (of_char b1 :: nat) \<and> (of_char b1 :: nat) < 192
         \<and> 128 \<le> (of_char b2 :: nat) \<and> (of_char b2 :: nat) < 192
      then CHR 0xEF # CHR 0xBF # CHR 0xBD # toUSVString bs
      else b0 # toUSVString (b1 # b2 # bs))"
| "toUSVString bs = bs"

definition append_entry :: "string \<Rightarrow> 'n entry \<Rightarrow> 'n formdata" where
  "append_entry name v =
     [(toUSVString name, case v of EStr s \<Rightarrow> EStr (toUSVString s) | EFile n s t \<Rightarrow> EFile n s t)]"

section \<open>The codec (\<open>src/utils/transform.ts\<close>)\<close>

subsection \<open>\<open>String(value)\<close>\<close>

text \<open>
  \<open>String\<close> on the values of the model.  An array prints its elements joined by
  commas, \<open>null\<close> and \<open>undefined\<close> elements and holes as the empty string; an
  \<open>Error\<close> prints its name and, when the message is not empty, the message.  The
  values of the model are not callable.  So an own property \<open>toString\<close> leaves the
  conversion without a method that returns a primitive, and it raises a
  TypeError; an own property \<open>join\<close> of an array makes \<open>Array.prototype.toString\<close>
  fall back to \<open>Object.prototype.toString\<close>.  \<open>js_String\<close> is the string when the
  conversion succeeds, \<open>string_fails\<close> says when it raises, and \<open>String_of\<close> is the
  conversion; its result is the string or (\<open>Inl\<close>) the thrown value.
\<close>

fun join_comma :: "string list \<Rightarrow> string" where
  "join_comma [] = []"
| "join_comma [s] = s"
| "join_comma (s # t # ss) = s @ '','' @ join_comma (t # ss)"

fun js_String :: "'n builtins \<Rightarrow> 'n jsval \<Rightarrow> string" where
  "js_String js Undefined = ''undefined''"
| "js_String js Null = ''null''"
| "js_String js (Bool b) = (if b then ''true'' else ''false'')"
| "js_String js NaN = ''NaN''"
| "js_String js (Num n) = numToString js n"
| "js_String js (Str s) = s"
| "js_String js (DateV d) = (case d of None \<Rightarrow> ''Invalid Date'' | Some t \<Rightarrow> dateToString js t)"
| "js_String js (FileV n s t) = ''[object File]''"
| "js_String js (BlobV s t) = ''[object Blob]''"
| "js_String js (ErrorV n m) = (if m = [] then n else n @ '': '' @ m)"
| "js_String js (Arr xs ps) =
     (if ''join'' \<in> fst ` set ps then ''[object Array]''
      else join_comma (map (\<lambda>x. if x = Undefined \<or> x = Null \<or> x = Hole then []
                                 else js_String js x) xs))"
| "js_String js (Obj kvs) = ''[object Object]''"
| "js_String js Hole = ''undefined''"

fun string_fails :: "'n jsval \<Rightarrow> bool" where
  "string_fails (Obj kvs) = (''toString'' \<in> fst ` set kvs)"
| "string_fails (Arr xs ps) =
     (''toString'' \<in> fst ` set ps \<or>
      (''join'' \<notin> fst ` set ps \<and>
       list_ex (\<lambda>x. x \<noteq> Undefined \<and> x \<noteq> Null \<and> x \<noteq> Hole \<and> string_fails x) xs))"
| "string_fails v = False"

definition String_of :: "'n builtins \<Rightarrow> 'n jsval \<Rightarrow> 'n jsval + string" where
  "String_of js v = (if string_fails v then Inl (engineError js TypeError) else Inr (js_String js v))"

subsection \<open>\<open>objectToFormData\<close>\<close>

text \<open>
  \<open>appendToFormData value key\<close> returns the entries it appends, in order.  The
  branches are those of the source, in its order: null or undefined; File or
  Blob; array; plain object (an own property \<open>constructor\<close> makes the test
  \<open>value.constructor === Object\<close> fail); Date (\<open>toISOString\<close> raises a RangeError
  on an Invalid Date); anything else through \<open>String\<close>, which cannot fail on a
  primitive or an \<open>Error\<close>.  On an array \<open>value.forEach\<close> is the built-in method
  unless an own property \<open>forEach\<close> shadows it: that property is not callable,
  and the call raises a TypeError.  The method visits the indices the array
  has, in order, and neither the holes nor the named properties.
\<close>

function (sequential) appendToFormData :: "'n builtins \<Rightarrow> 'n jsval \<Rightarrow> string \<Rightarrow> ('n, 'n formdata) comp"
  and append_items :: "'n builtins \<Rightarrow> 'n jsval list \<Rightarrow> nat \<Rightarrow> string \<Rightarrow> ('n, 'n formdata) comp"
  and append_fields :: "'n builtins \<Rightarrow> (string \<times> 'n jsval) list \<Rightarrow> string \<Rightarrow> ('n, 'n formdata) comp"
where
  "appendToFormData js Undefined key = Inr (append_entry key (EStr []))"
| "appendToFormData js Hole key = Inr (append_entry key (EStr []))"
| "appendToFormData js Null key = Inr (append_entry key (EStr []))"
| "appendToFormData js (FileV n s t) key = Inr (append_entry key (EFile n s t))"
| "appendToFormData js (BlobV s t) key = Inr (append_entry key (EFile ''blob'' s t))"
| "appendToFormData js (Arr xs ps) key =
     (if ''forEach'' \<in> fst ` set ps then throwEngine js TypeError
      else append_items js xs 0 key)"
| "appendToFormData js (Obj kvs) key =
     (if ''constructor'' \<in> fst ` set kvs then
        (case String_of js (Obj kvs) of
           Inl e \<Rightarrow> Inl (Throw e)
         | Inr s \<Rightarrow> Inr (append_entry key (EStr s)))
      else append_fields js kvs key)"
| "appendToFormData js (DateV d) key =
     (case d of None \<Rightarrow> throwEngine js RangeError
      | Some t \<Rightarrow> Inr (append_entry key (EStr (toISOString js t))))"
| "appendToFormData js (Bool b) key = Inr (append_entry key (EStr (js_String js (Bool b))))"
| "appendToFormData js NaN key = Inr (append_entry key (EStr (js_String js NaN)))"
| "appendToFormData js (Num n) key = Inr (append_entry key (EStr (js_String js (Num n))))"
| "appendToFormData js (Str s) key = Inr (append_entry key (EStr (js_String js (Str s))))"
| "appendToFormData js (ErrorV n m) key = Inr (append_entry key (EStr (js_String js (ErrorV n m))))"
| "append_items js [] i key = Inr []"
| "append_items js (x # xs) i key =
     (if x = Hole then append_items js xs (Suc i) key
      else andThen (appendToFormData js x (key @ ''['' @ nat_str i @ '']''))
             (\<lambda>a. andThen (append_items js xs (Suc i) key) (\<lambda>b. Inr (a @ b))))"
| "append_fields js [] key = Inr []"
| "append_fields js ((nestedKey, nestedValue) # kvs) key =
     andThen (appendToFormData js nestedValue
                (if key \<noteq> [] then key @ ''.'' @ nestedKey else nestedKey))
       (\<lambda>a. andThen (append_fields js kvs key) (\<lambda>b. Inr (a @ b)))"
  by pat_completeness auto

termination
  by (relation "measure (\<lambda>x. case x of
          Inl (js, v, key) \<Rightarrow> 2 * size v
        | Inr (Inl (js, xs, i, key)) \<Rightarrow> 2 * size_list size xs + 1
        | Inr (Inr (js, kvs, key)) \<Rightarrow> 2 * size_list (size_prod (\<lambda>x. 0) size) kvs + 1)") auto

text \<open>
  \<open>Object.keys(obj)\<close> with the values \<open>obj[key]\<close>: the own enumerable properties.
  It raises a TypeError on null and undefined; a string lists its characters,
  an array the indices it has and then its named properties; the other values
  of the model have none.
\<close>

fun index_from :: "nat \<Rightarrow> 'a list \<Rightarrow> (string \<times> 'a) list" where
  "index_from i [] = []"
| "index_from i (x # xs) = (nat_str i, x) # index_from (Suc i) xs"

fun own_entries :: "'n builtins \<Rightarrow> 'n jsval \<Rightarrow> ('n, (string \<times> 'n jsval) list) comp" where
  "own_entries js Undefined = throwEngine js TypeError"
| "own_entries js Null = throwEngine js TypeError"
| "own_entries js (Obj kvs) = Inr kvs"
| "own_entries js Hole = throwEngine js TypeError"
| "own_entries js (Arr xs ps) = Inr (filter (\<lambda>p. snd p \<noteq> Hole) (index_from 0 xs) @ ps)"
| "own_entries js (Str s) = Inr (index_from 0 (map Str (stringChars js s)))"
| "own_entries js v = Inr []"

fun append_roots :: "'n builtins \<Rightarrow> (string \<times> 'n jsval) list \<Rightarrow> string \<Rightarrow> ('n, 'n formdata) comp" where
  "append_roots js [] prefix = Inr []"
| "append_roots js ((key, v) # kvs) prefix =
     andThen (appendToFormData js v (if prefix \<noteq> [] then prefix @ ''.'' @ key else key))
       (\<lambda>a. andThen (append_roots js kvs prefix) (\<lambda>b. Inr (a @ b)))"

definition objectToFormData_prefix :: "'n builtins \<Rightarrow> 'n jsval \<Rightarrow> string \<Rightarrow> ('n, 'n formdata) comp" where
  "objectToFormData_prefix js obj prefix =
     andThen (own_entries js obj) (\<lambda>kvs. append_roots js kvs prefix)"

definition objectToFormData :: "'n builtins \<Rightarrow> 'n jsval \<Rightarrow> ('n, 'n formdata) comp" where
  "objectToFormData js obj = objectToFormData_prefix js obj []"


subsection \<open>\<open>formDataToObject\<close> and \<open>setNestedValue\<close>\<close>

text \<open>
  \<open>path.split(/[.\[\]]/).filter(Boolean)\<close>: the path is cut at every dot and
  bracket, and the empty pieces are dropped.
\<close>

definition is_delim :: "char \<Rightarrow> bool" where
  "is_delim c = (c = CHR ''.'' \<or> c = CHR ''['' \<or> c = CHR '']'')"

fun split_on :: "(char \<Rightarrow> bool) \<Rightarrow> string \<Rightarrow> string list" where
  "split_on p [] = [[]]"
| "split_on p (c # cs) =
     (if p c then [] # split_on p cs
      else (case split_on p cs of [] \<Rightarrow> [[c]] | w # ws \<Rightarrow> (c # w) # ws))"

definition path_keys :: "string \<Rightarrow> string list" where
  "path_keys path = filter (\<lambda>w. w \<noteq> []) (split_on is_delim path)"

text \<open>
  The regular expression \<open>/^\d{4}-\d{2}-\d{2}T\d{2}:\d{2}:\d{2}/\<close>, anchored at the
  start only.
\<close>

datatype pat = Digit | Lit char

fun match_prefix :: "pat list \<Rightarrow> string \<Rightarrow> bool" where
  "match_prefix [] s = True"
| "match_prefix (p # ps) [] = False"
| "match_prefix (p # ps) (c # cs) =
     ((case p of Digit \<Rightarrow> is_digit c | Lit x \<Rightarrow> c = x) \<and> match_prefix ps cs)"

definition iso_date_pattern :: "pat list" where
  "iso_date_pattern =
     [Digit, Digit, Digit, Digit, Lit (CHR ''-''), Digit, Digit, Lit (CHR ''-''), Digit, Digit,
      Lit (CHR ''T''), Digit, Digit, Lit (CHR '':''), Digit, Digit, Lit (CHR '':''), Digit, Digit]"

definition matches_iso_date :: "string \<Rightarrow> bool" where
  "matches_iso_date s = match_prefix iso_date_pattern s"

text \<open>
  The value stored for an entry (\<open>processedValue\<close>): a \<open>File\<close> entry is stored as
  it is, a string goes through the chain of tests of the source.
\<close>

definition processValue :: "'n builtins \<Rightarrow> 'n entry \<Rightarrow> 'n jsval" where
  "processValue js v =
     (case v of
        EFile n s t \<Rightarrow> FileV n s t
      | EStr s \<Rightarrow>
          if matches_iso_date s then DateV (parseDate js s)
          else if toNumber js s \<noteq> None \<and> s \<noteq> []
            then (case toNumber js s of Some n \<Rightarrow> Num n | None \<Rightarrow> NaN)
          else if s = ''true'' \<or> s = ''false'' then Bool (s = ''true'')
          else if s = [] then Null
          else Str s)"

text \<open>
  Properties of a container.  \<open>put_prop\<close> keeps the order in which JavaScript
  enumerates own keys: array indices first, ascending, then the other names in
  insertion order; an existing key keeps its place.
\<close>

definition key_precedes :: "string \<Rightarrow> string \<Rightarrow> bool" where
  "key_precedes k k' =
     (case array_index k of
        None \<Rightarrow> False
      | Some i \<Rightarrow> (case array_index k' of None \<Rightarrow> True | Some j \<Rightarrow> i < j))"

fun put_prop :: "string \<Rightarrow> 'a \<Rightarrow> (string \<times> 'a) list \<Rightarrow> (string \<times> 'a) list" where
  "put_prop k v [] = [(k, v)]"
| "put_prop k v ((k', v') # kvs) =
     (if k' = k then (k, v) # kvs
      else if key_precedes k k' then (k, v) # (k', v') # kvs
      else (k', v') # put_prop k v kvs)"

definition arr_set :: "'n jsval list \<Rightarrow> nat \<Rightarrow> 'n jsval \<Rightarrow> 'n jsval list" where
  "arr_set xs i v =
     (if i < length xs then xs[i := v] else xs @ replicate (i - length xs) Hole @ [v])"

fun is_array :: "'n jsval \<Rightarrow> bool" where
  "is_array (Arr xs ps) = True"
| "is_array v = False"

fun is_object :: "'n jsval \<Rightarrow> bool" where
  "is_object (Obj kvs) = True"
| "is_object v = False"

text \<open>
  \<open>key in current\<close> is true of the own properties of a container and of the
  members it inherits.  An array owns the indices it has, its \<open>length\<close> and its
  named properties.  On a primitive the operator raises a TypeError.
\<close>

fun own_prop :: "'n jsval \<Rightarrow> string \<Rightarrow> bool" where
  "own_prop (Obj kvs) k = (k \<in> fst ` set kvs)"
| "own_prop (Arr xs ps) k =
     (case array_index k of
        Some i \<Rightarrow> i < length xs \<and> xs ! i \<noteq> Hole
      | None \<Rightarrow> k = ''length'' \<or> k \<in> fst ` set ps)"
| "own_prop v k = False"

fun inherits :: "'n builtins \<Rightarrow> 'n jsval \<Rightarrow> string \<Rightarrow> bool" where
  "inherits js (Obj kvs) k = objectProto js k"
| "inherits js (Arr xs ps) k = arrayProto js k"
| "inherits js v k = False"

fun has_prop :: "'n builtins \<Rightarrow> 'n jsval \<Rightarrow> string \<Rightarrow> ('n, bool) comp" where
  "has_prop js (Obj kvs) k = Inr (own_prop (Obj kvs) k \<or> inherits js (Obj kvs) k)"
| "has_prop js (Arr xs ps) k = Inr (own_prop (Arr xs ps) k \<or> inherits js (Arr xs ps) k)"
| "has_prop js (DateV d) k = Inl Unmodelled"
| "has_prop js (FileV n s t) k = Inl Unmodelled"
| "has_prop js (BlobV s t) k = Inl Unmodelled"
| "has_prop js (ErrorV n m) k = Inl Unmodelled"
| "has_prop js v k = throwEngine js TypeError"

text \<open>\<open>current[key]\<close>, read, for an own property.\<close>

fun get_prop :: "'n builtins \<Rightarrow> 'n jsval \<Rightarrow> string \<Rightarrow> 'n jsval" where
  "get_prop js (Obj kvs) k = (case map_of kvs k of Some v \<Rightarrow> v | None \<Rightarrow> Undefined)"
| "get_prop js (Arr xs ps) k =
     (case array_index k of
        Some i \<Rightarrow> if i < length xs \<and> xs ! i \<noteq> Hole then xs ! i else Undefined
      | None \<Rightarrow> if k = ''length'' then Num (numOfNat js (length xs))
                else (case map_of ps k of Some v \<Rightarrow> v | None \<Rightarrow> Undefined))"
| "get_prop js v k = Undefined"

text \<open>
  The length that a value denotes when it is assigned to the \<open>length\<close> of an
  array: the value is converted to a number (an object through its string,
  a Date through its time value), and the number has to be an array length.
  The result is \<open>None\<close> when it is none, and (\<open>Inl\<close>) what the conversion throws.
\<close>

definition string_length :: "'n builtins \<Rightarrow> string \<Rightarrow> nat option" where
  "string_length js s = (case toNumber js s of Some n \<Rightarrow> lengthOf js n | None \<Rightarrow> None)"

fun to_length :: "'n builtins \<Rightarrow> 'n jsval \<Rightarrow> 'n jsval + nat option" where
  "to_length js Undefined = Inr None"
| "to_length js Hole = Inr None"
| "to_length js NaN = Inr None"
| "to_length js Null = Inr (Some 0)"
| "to_length js (Bool b) = Inr (Some (if b then 1 else 0))"
| "to_length js (Num n) = Inr (lengthOf js n)"
| "to_length js (Str s) = Inr (string_length js s)"
| "to_length js (DateV d) =
     Inr (case d of
            Some t \<Rightarrow> if 0 \<le> t \<and> t < 4294967296 then Some (nat t) else None
          | None \<Rightarrow> None)"
| "to_length js v =
     (case String_of js v of Inl e \<Rightarrow> Inl e | Inr s \<Rightarrow> Inr (string_length js s))"

text \<open>
  \<open>current[key] = value\<close>.  The assignment makes or changes an own property,
  also under a name the container inherits, with two exceptions.  The
  inherited \<open>__proto__\<close> is a setter: it ignores a primitive other than \<open>null\<close>,
  and with \<open>null\<close> or an object it replaces the prototype of the container.
  The \<open>length\<close> of an array cuts the array or extends it with holes, and raises
  a RangeError for a value that is no array length.  Module code is strict,
  so the assignment raises a TypeError on a primitive, unless the setter takes
  it: called on a primitive, the setter does nothing.
\<close>

definition proto_setter :: "'n builtins \<Rightarrow> 'n jsval \<Rightarrow> string \<Rightarrow> bool" where
  "proto_setter js current k = (k = ''__proto__'' \<and> \<not> own_prop current k \<and> inherits js current k)"

fun replaces_prototype :: "'n jsval \<Rightarrow> bool" where
  "replaces_prototype Null = True"
| "replaces_prototype (DateV d) = True"
| "replaces_prototype (FileV n s t) = True"
| "replaces_prototype (BlobV s t) = True"
| "replaces_prototype (ErrorV n m) = True"
| "replaces_prototype (Arr xs ps) = True"
| "replaces_prototype (Obj kvs) = True"
| "replaces_prototype v = False"

definition resize :: "'n jsval list \<Rightarrow> nat \<Rightarrow> 'n jsval list" where
  "resize xs l = (if l \<le> length xs then take l xs else xs @ replicate (l - length xs) Hole)"

fun set_prop :: "'n builtins \<Rightarrow> 'n jsval \<Rightarrow> string \<Rightarrow> 'n jsval \<Rightarrow> ('n, 'n jsval) comp" where
  "set_prop js (Obj kvs) k v =
     (if proto_setter js (Obj kvs) k then
        (if replaces_prototype v then Inl Unmodelled else Inr (Obj kvs))
      else Inr (Obj (put_prop k v kvs)))"
| "set_prop js (Arr xs ps) k v =
     (case array_index k of
        Some i \<Rightarrow> Inr (Arr (arr_set xs i v) ps)
      | None \<Rightarrow>
          if k = ''length'' then
            (case to_length js v of
               Inl e \<Rightarrow> Inl (Throw e)
             | Inr None \<Rightarrow> throwEngine js RangeError
             | Inr (Some l) \<Rightarrow> Inr (Arr (resize xs l) ps))
          else if proto_setter js (Arr xs ps) k then
            (if replaces_prototype v then Inl Unmodelled else Inr (Arr xs ps))
          else Inr (Arr xs (put_prop k v ps)))"
| "set_prop js (DateV d) k v = Inl Unmodelled"
| "set_prop js (FileV n s t) k v = Inl Unmodelled"
| "set_prop js (BlobV s t) k v = Inl Unmodelled"
| "set_prop js (ErrorV n m) k v = Inl Unmodelled"
| "set_prop js (Bool b) k v =
     (if k = ''__proto__'' \<and> objectProto js k then Inr (Bool b) else throwEngine js TypeError)"
| "set_prop js NaN k v =
     (if k = ''__proto__'' \<and> objectProto js k then Inr NaN else throwEngine js TypeError)"
| "set_prop js (Num n) k v =
     (if k = ''__proto__'' \<and> objectProto js k then Inr (Num n) else throwEngine js TypeError)"
| "set_prop js (Str s) k v =
     (if k = ''__proto__'' \<and> objectProto js k then Inr (Str s) else throwEngine js TypeError)"
| "set_prop js c k v = throwEngine js TypeError"

text \<open>
  The container created for a missing key: an array when the next key is
  numeric (\<open>!isNaN(Number(nextKey))\<close>), a plain object otherwise.
\<close>

definition isNextKeyNumeric :: "'n builtins \<Rightarrow> string \<Rightarrow> bool" where
  "isNextKeyNumeric js nextKey = (toNumber js nextKey \<noteq> None)"

definition new_container :: "'n builtins \<Rightarrow> string \<Rightarrow> 'n jsval" where
  "new_container js nextKey = (if isNextKeyNumeric js nextKey then Arr [] [] else Obj [])"

text \<open>
  The source walks down by reference and mutates the innermost container; the
  model walks down by recursion, and \<open>put_back\<close> stores each child, as the walk
  has left it, in the own property of the parent it was read from.  (The
  \<open>length\<close> of an array is a number, which no walk can change.)
\<close>

fun put_back :: "'n jsval \<Rightarrow> string \<Rightarrow> 'n jsval \<Rightarrow> 'n jsval" where
  "put_back (Obj kvs) k child = Obj (put_prop k child kvs)"
| "put_back (Arr xs ps) k child =
     (case array_index k of
        Some i \<Rightarrow> Arr (arr_set xs i child) ps
      | None \<Rightarrow> if k = ''length'' then Arr xs ps else Arr xs (put_prop k child ps))"
| "put_back current k child = current"

text \<open>
  A step into a member that the container inherits and does not own leaves
  the result: the rest of the walk is in built-in objects.
\<close>

definition via_inherited ::
  "'n builtins \<Rightarrow> 'n jsval \<Rightarrow> string \<Rightarrow> string list \<Rightarrow> 'n jsval \<Rightarrow> ('n, 'a) comp" where
  "via_inherited js current key keys v =
     (case viaInherited js (is_array current) key keys v of
        Some e \<Rightarrow> throwEngine js e
      | None \<Rightarrow> Inl Unmodelled)"

text \<open>
  The loop of \<open>setNestedValue\<close> over \<open>keys\<close> and its final assignment.  With no
  key at all \<open>finalKey\<close> is \<open>undefined\<close>, which names the property \<open>undefined\<close>.
\<close>

function set_path :: "'n builtins \<Rightarrow> 'n jsval \<Rightarrow> string list \<Rightarrow> 'n jsval \<Rightarrow> ('n, 'n jsval) comp" where
  "set_path js current [] v = set_prop js current ''undefined'' v"
| "set_path js current [finalKey] v = set_prop js current finalKey v"
| "set_path js current (key # nextKey # keys) v =
     andThen (has_prop js current key) (\<lambda>present.
       if present \<and> \<not> own_prop current key then via_inherited js current key (nextKey # keys) v
       else
         andThen (if present then Inr current
                  else set_prop js current key (new_container js nextKey)) (\<lambda>current'.
         andThen (set_path js (get_prop js current' key) (nextKey # keys) v) (\<lambda>child.
           Inr (put_back current' key child))))"
  by pat_completeness auto

termination
  by (relation "measure (\<lambda>(js, current, keys, v). length keys)") auto

definition setNestedValue :: "'n builtins \<Rightarrow> 'n jsval \<Rightarrow> string \<Rightarrow> 'n entry \<Rightarrow> ('n, 'n jsval) comp" where
  "setNestedValue js obj path v = set_path js obj (path_keys path) (processValue js v)"

fun formData_forEach :: "'n builtins \<Rightarrow> 'n formdata \<Rightarrow> 'n jsval \<Rightarrow> ('n, 'n jsval) comp" where
  "formData_forEach js [] result = Inr result"
| "formData_forEach js ((key, v) # rest) result =
     andThen (setNestedValue js result key v) (formData_forEach js rest)"

definition formDataToObject :: "'n builtins \<Rightarrow> 'n formdata \<Rightarrow> ('n, 'n jsval) comp" where
  "formDataToObject js formData = formData_forEach js formData (Obj [])"


section \<open>Sanitizing (\<open>src/utils/response.ts\<close>, \<open>src/utils/wrapper.ts\<close>)\<close>

text \<open>
  \<open>sanitizeForTransport\<close>, in the order of the source: null and undefined are
  returned; an array is mapped; a Date becomes its ISO string (\<open>toISOString\<close>
  raises a RangeError on an Invalid Date); a File or Blob becomes a metadata
  object; a plain object is rebuilt entry by entry; anything else is returned.
  On an array \<open>data.map\<close> is the built-in method unless an own property \<open>map\<close>
  shadows it: that property is not callable, and the call raises a TypeError.
  The method builds a new array of the same length, with the same holes and
  without the named properties.  In the rebuilt object an entry under the key
  \<open>__proto__\<close> is assigned through the inherited setter, which makes no own
  property: the entry is sanitized and then left out.
\<close>

function (sequential) sanitizeForTransport :: "'n builtins \<Rightarrow> 'n jsval \<Rightarrow> ('n, 'n jsval) comp"
  and sanitize_items :: "'n builtins \<Rightarrow> 'n jsval list \<Rightarrow> ('n, 'n jsval list) comp"
  and sanitize_fields :: "'n builtins \<Rightarrow> (string \<times> 'n jsval) list \<Rightarrow> ('n, (string \<times> 'n jsval) list) comp"
where
  "sanitizeForTransport js Undefined = Inr Undefined"
| "sanitizeForTransport js Null = Inr Null"
| "sanitizeForTransport js (Arr xs ps) =
     (if ''map'' \<in> fst ` set ps then throwEngine js TypeError
      else andThen (sanitize_items js xs) (\<lambda>ys. Inr (Arr ys [])))"
| "sanitizeForTransport js (DateV d) =
     (case d of None \<Rightarrow> throwEngine js RangeError | Some t \<Rightarrow> Inr (Str (toISOString js t)))"
| "sanitizeForTransport js (FileV n s t) =
     Inr (Obj [(''name'', Str n), (''size'', Num s), (''type'', Str t), (''_isFile'', Bool True)])"
| "sanitizeForTransport js (BlobV s t) =
     Inr (Obj [(''name'', Str ''blob''), (''size'', Num s), (''type'', Str t), (''_isFile'', Bool True)])"
| "sanitizeForTransport js (Obj kvs) =
     (if ''constructor'' \<in> fst ` set kvs then Inr (Obj kvs)
      else andThen (sanitize_fields js kvs) (\<lambda>sanitized. Inr (Obj sanitized)))"
| "sanitizeForTransport js v = Inr v"
| "sanitize_items js [] = Inr []"
| "sanitize_items js (x # xs) =
     andThen (sanitizeForTransport js x)
       (\<lambda>y. andThen (sanitize_items js xs) (\<lambda>ys. Inr (y # ys)))"
| "sanitize_fields js [] = Inr []"
| "sanitize_fields js ((key, v) # kvs) =
     andThen (sanitizeForTransport js v)
       (\<lambda>y. andThen (sanitize_fields js kvs)
          (\<lambda>ys. Inr (if key = ''__proto__'' \<and> objectProto js key then ys else (key, y) # ys)))"
  by pat_completeness auto

termination
  by (relation "measure (\<lambda>x. case x of
          Inl (js, v) \<Rightarrow> 2 * size v
        | Inr (Inl (js, xs)) \<Rightarrow> 2 * size_list size xs + 1
        | Inr (Inr (js, kvs)) \<Rightarrow> 2 * size_list (size_prod (\<lambda>x. 0) size) kvs + 1)") auto

text \<open>\<open>wrapper.ts\<close> carries its own copy of the function, line for line.\<close>

definition sanitizeDataForClient :: "'n builtins \<Rightarrow> 'n jsval \<Rightarrow> ('n, 'n jsval) comp" where
  "sanitizeDataForClient js v = sanitizeForTransport js v"

section \<open>The response normalizer (\<open>withFormTransform\<close>)\<close>

text \<open>
  A \<open>ServerActionResponse\<close>: \<open>{ok: true, message, data}\<close> or
  \<open>{ok: false, message, error}\<close>.  The message is whatever value the code puts
  there.
\<close>

datatype 'n response =
    Success (message: "'n jsval") (payload: "'n jsval")
  | Failure (message: "'n jsval") (payload: "'n jsval")

text \<open>What awaiting a call gives: a value, or a thrown (rejected) value.\<close>

datatype 'n outcome = Returns "'n jsval" | Throws "'n jsval"

text \<open>How the promise of an async function settles.\<close>

datatype 'n settled = Resolved "'n response" | Rejected "'n jsval" | NotModelled

fun truthy :: "'n builtins \<Rightarrow> 'n jsval \<Rightarrow> bool" where
  "truthy js Undefined = False"
| "truthy js Hole = False"
| "truthy js Null = False"
| "truthy js NaN = False"
| "truthy js (Bool b) = b"
| "truthy js (Num n) = (\<not> numIsZero js n)"
| "truthy js (Str s) = (s \<noteq> [])"
| "truthy js v = True"

definition orElse :: "'n builtins \<Rightarrow> 'n jsval \<Rightarrow> 'n jsval \<Rightarrow> 'n jsval" where
  "orElse js a b = (if truthy js a then a else b)"

text \<open>
  \<open>k in v\<close> and \<open>v.k\<close> on an object, for the keys \<open>ok\<close>, \<open>data\<close>, \<open>error\<close> and
  \<open>message\<close> the normalizer asks for.  The standard prototypes define none of
  them, except that an \<open>Error\<close> has a \<open>message\<close> and a \<open>name\<close>.
\<close>

fun in_object :: "string \<Rightarrow> 'n jsval \<Rightarrow> bool" where
  "in_object k (Obj kvs) = (k \<in> fst ` set kvs)"
| "in_object k (ErrorV n m) = (k = ''message'' \<or> k = ''name'')"
| "in_object k v = False"

fun read_prop :: "'n jsval \<Rightarrow> string \<Rightarrow> 'n jsval" where
  "read_prop (Obj kvs) k = (case map_of kvs k of Some v \<Rightarrow> v | None \<Rightarrow> Undefined)"
| "read_prop (ErrorV n m) k =
     (if k = ''message'' then Str m else if k = ''name'' then Str n else Undefined)"
| "read_prop v k = Undefined"

fun is_Error :: "'n jsval \<Rightarrow> bool" where
  "is_Error (ErrorV n m) = True"
| "is_Error v = False"

text \<open>\<open>result && typeof result === 'object' && !Array.isArray(result)\<close>\<close>

fun is_response_like :: "'n jsval \<Rightarrow> bool" where
  "is_response_like (Obj kvs) = True"
| "is_response_like (DateV d) = True"
| "is_response_like (FileV n s t) = True"
| "is_response_like (BlobV s t) = True"
| "is_response_like (ErrorV n m) = True"
| "is_response_like v = False"

text \<open>
  \<open>new Error(m)\<close>: the new error, or (\<open>Inl\<close>) what converting \<open>m\<close> to a string
  throws.
\<close>

definition new_Error :: "'n builtins \<Rightarrow> 'n jsval \<Rightarrow> 'n jsval + 'n jsval" where
  "new_Error js m =
     (if m = Undefined then Inr (ErrorV ''Error'' [])
      else case String_of js m of Inl e \<Rightarrow> Inl e | Inr s \<Rightarrow> Inr (ErrorV ''Error'' s))"

definition throw :: "'n jsval \<Rightarrow> ('n, 'a) comp" where
  "throw e = Inl (Throw e)"

text \<open>\<open>throw new Error(m)\<close>: either way a value is thrown.\<close>

definition throw_new_Error :: "'n builtins \<Rightarrow> 'n jsval \<Rightarrow> ('n, 'a) comp" where
  "throw_new_Error js m = (case new_Error js m of Inl e \<Rightarrow> throw e | Inr e \<Rightarrow> throw e)"

definition success_default :: "'n jsval" where
  "success_default = Str ''Operation completed successfully''"

text \<open>The body of the \<open>try\<close> block once the action has returned \<open>result\<close>.\<close>

definition classify :: "'n builtins \<Rightarrow> 'n jsval \<Rightarrow> ('n, 'n response) comp" where
  "classify js result =
     (let response = result;
          regular = andThen (sanitizeDataForClient js result)
                      (\<lambda>sanitizedResult. Inr (Success success_default sanitizedResult))
      in
      if is_response_like result then
        (case read_prop response ''ok'' of
           Bool ok \<Rightarrow>
             if ok then
               andThen (sanitizeDataForClient js (read_prop response ''data''))
                 (\<lambda>d. Inr (Success (orElse js (read_prop response ''message'') success_default) d))
             else if truthy js (read_prop response ''error'') then
               throw (read_prop response ''error'')
             else
               throw_new_Error js (orElse js (read_prop response ''message'')
                                     (Str ''Operation failed''))
         | _ \<Rightarrow>
             if in_object ''data'' response \<and> \<not> in_object ''error'' response then
               andThen (sanitizeDataForClient js (read_prop response ''data''))
                 (\<lambda>d. Inr (Success (orElse js (read_prop response ''message'') success_default) d))
             else if in_object ''error'' response \<and> \<not> in_object ''data'' response then
               (if is_Error (read_prop response ''error'') then
                  throw (read_prop response ''error'')
                else
                  throw_new_Error js (orElse js (read_prop response ''message'')
                                        (Str ''Operation failed'')))
             else regular)
      else regular)"

text \<open>
  The \<open>catch\<close> block: the response it returns, or (\<open>Inl\<close>) what \<open>String(error)\<close>
  throws in it.
\<close>

definition catch_response :: "'n builtins \<Rightarrow> 'n jsval \<Rightarrow> 'n jsval + 'n response" where
  "catch_response js error =
     (if is_Error error then Inr (Failure (read_prop error ''message'') error)
      else case String_of js error of
             Inl e \<Rightarrow> Inl e
           | Inr s \<Rightarrow> Inr (Failure (Str ''Error processing request'') (ErrorV ''Error'' s)))"

definition await_action :: "('n jsval \<Rightarrow> 'n outcome) \<Rightarrow> 'n jsval \<Rightarrow> ('n, 'n jsval) comp" where
  "await_action serverAction parsedData =
     (case serverAction parsedData of Returns result \<Rightarrow> Inr result | Throws e \<Rightarrow> throw e)"

definition settle :: "'n builtins \<Rightarrow> ('n, 'n response) comp \<Rightarrow> 'n settled" where
  "settle js body =
     (case body of
        Inr r \<Rightarrow> Resolved r
      | Inl (Throw error) \<Rightarrow>
          (case catch_response js error of Inr r \<Rightarrow> Resolved r | Inl e \<Rightarrow> Rejected e)
      | Inl Unmodelled \<Rightarrow> NotModelled)"

text \<open>The wrapper with response detection (\<open>src/unnamed/part_002\<close>).\<close>

definition withFormTransform ::
  "'n builtins \<Rightarrow> ('n jsval \<Rightarrow> 'n outcome) \<Rightarrow> 'n formdata \<Rightarrow> 'n settled" where
  "withFormTransform js serverAction formData =
     settle js
       (andThen (formDataToObject js formData) (\<lambda>parsedData.
        andThen (await_action serverAction parsedData) (\<lambda>result.
          classify js result)))"



section \<open>\<open>serverActionRequest\<close> (\<open>src/utils/request.ts\<close>)\<close>

text \<open>What a caller hands to \<open>execute\<close>: a \<open>FormData\<close> or a record.\<close>

datatype 'n request_data = FormDataP "'n formdata" | RecordP "'n jsval"

text \<open>
  The function runs up to its \<open>await\<close>: it encodes a record, passes a
  \<open>FormData\<close> through, and calls the action.  An exception of the encoder lands
  in its \<open>catch\<close> before the action is called: then the function is settled,
  with the response of the \<open>catch\<close> block or with what \<open>String(error)\<close> throws
  there.
\<close>

datatype 'n in_flight = Invoked "'n formdata" | NotInvoked "'n jsval + 'n response"

definition request_failed :: "'n builtins \<Rightarrow> 'n jsval \<Rightarrow> 'n jsval + 'n response" where
  "request_failed js error =
     (if is_Error error then Inr (Failure (Str ''Error processing request'') error)
      else case String_of js error of
             Inl e \<Rightarrow> Inl e
           | Inr s \<Rightarrow> Inr (Failure (Str ''Error processing request'') (ErrorV ''Error'' s)))"

definition serverActionRequest_call :: "'n builtins \<Rightarrow> 'n request_data \<Rightarrow> 'n in_flight option" where
  "serverActionRequest_call js d =
     (case (case d of FormDataP formData \<Rightarrow> Inr formData | RecordP obj \<Rightarrow> objectToFormData js obj) of
        Inr formData \<Rightarrow> Some (Invoked formData)
      | Inl (Throw error) \<Rightarrow> Some (NotInvoked (request_failed js error))
      | Inl Unmodelled \<Rightarrow> None)"

text \<open>
  What the action's promise brings, and how \<open>serverActionRequest\<close> settles: with
  the action's own response, with the failure of its \<open>catch\<close> block, or (\<open>Inl\<close>)
  with what that block throws.
\<close>

datatype 'n arrival = ActionResolved "'n response" | ActionRejected "'n jsval"

definition serverActionRequest_result ::
  "'n builtins \<Rightarrow> 'n in_flight \<Rightarrow> 'n arrival \<Rightarrow> 'n jsval + 'n response" where
  "serverActionRequest_result js f a =
     (case f of
        NotInvoked r \<Rightarrow> r
      | Invoked formData \<Rightarrow>
          (case a of ActionResolved r \<Rightarrow> Inr r | ActionRejected error \<Rightarrow> request_failed js error))"

section \<open>The request orchestrator (\<open>src/hooks/useSAR.ts\<close>)\<close>

text \<open>
  A callback is a function of its argument that says what it throws, if it
  throws; its other effects are outside the model (in particular it does not
  call back into the hook).
\<close>

type_synonym 'n callback = "'n jsval \<Rightarrow> 'n jsval option"

text \<open>
  The options that \<open>execute\<close> reads.  \<open>condition\<close> is \<open>None\<close> when it is not given;
  times are whole milliseconds.
\<close>

record 'n options =
  condition :: "bool option"
  cacheTime :: int
  dedupingInterval :: int
  onSuccess :: "'n callback option"
  onError :: "'n callback option"

text \<open>
  The state of one hook instance: the three \<open>useState\<close> cells (\<open>undefined\<close> is the
  value \<open>Undefined\<close>), the refs, and what the model keeps of the world around
  it.  An \<open>AbortController\<close> is a number; \<open>aborted\<close> holds those that were
  aborted.  A timer is a number; \<open>timers\<close> holds those still pending.
  \<open>actionCalls\<close>, \<open>successCalls\<close> and \<open>errorCalls\<close> log the calls of the wrapped
  action and of the two callbacks.
\<close>

record 'n session =
  loading :: bool
  error :: "'n jsval"
  data :: "'n jsval"
  lastRequestDataRef :: "'n request_data option"
  abortControllerRef :: "nat option"
  lastRequestTimeRef :: int
  cacheTimeoutRef :: "nat option"
  aborted :: "nat set"
  controllers :: nat
  timers :: "nat set"
  timerCount :: nat
  actionCalls :: "'n formdata list"
  successCalls :: "'n jsval list"
  errorCalls :: "'n jsval list"

definition initial_session :: "'n session" where
  "initial_session =
     \<lparr> loading = False, error = Undefined, data = Undefined,
       lastRequestDataRef = None, abortControllerRef = None, lastRequestTimeRef = 0,
       cacheTimeoutRef = None, aborted = {}, controllers = 0, timers = {}, timerCount = 0,
       actionCalls = [], successCalls = [], errorCalls = [] \<rparr>"

definition abort_current :: "'n session \<Rightarrow> 'n session" where
  "abort_current s =
     (case abortControllerRef s of None \<Rightarrow> s | Some c \<Rightarrow> s\<lparr>aborted := insert c (aborted s)\<rparr>)"

definition clear_cache_timeout :: "'n session \<Rightarrow> 'n session" where
  "clear_cache_timeout s =
     (case cacheTimeoutRef s of None \<Rightarrow> s | Some t \<Rightarrow> s\<lparr>timers := timers s - {t}\<rparr>)"

text \<open>
  A request that \<open>execute\<close> is awaiting: the \<open>signal\<close> of its own controller and
  what \<open>serverActionRequest\<close> did.
\<close>

record 'n pending =
  signal :: nat
  flight :: "'n in_flight"

text \<open>
  \<open>execute\<close> up to its \<open>await\<close>.  \<open>seenLoading\<close> is the value of \<open>loading\<close> in the
  render that made this \<open>execute\<close> (the callback closes over it), \<open>now\<close> is
  \<open>Date.now()\<close>.  The result is the new state and the request now awaited, if
  one was started (the outer \<open>None\<close> stands for an encoding that the model does
  not describe).
\<close>

definition execute_call ::
  "'n builtins \<Rightarrow> 'n options \<Rightarrow> bool \<Rightarrow> int \<Rightarrow> 'n request_data option \<Rightarrow> 'n session
     \<Rightarrow> ('n session \<times> 'n pending option) option" where
  "execute_call js opts seenLoading now requestData s =
     (if condition opts = Some False then Some (s, None)
      else
        let s1 = (case requestData of None \<Rightarrow> s | Some d \<Rightarrow> s\<lparr>lastRequestDataRef := Some d\<rparr>);
            currentTime = now
        in
        if currentTime - lastRequestTimeRef s1 < dedupingInterval opts \<and> seenLoading
        then Some (s1, None)
        else
          let s2 = s1\<lparr>lastRequestTimeRef := currentTime\<rparr>;
              s3 = abort_current s2;
              c = controllers s3;
              s4 = s3\<lparr>abortControllerRef := Some c, controllers := Suc c\<rparr>;
              s5 = s4\<lparr>loading := True, error := Undefined\<rparr>;
              d = (case requestData of
                     Some d \<Rightarrow> d
                   | None \<Rightarrow> (case lastRequestDataRef s5 of Some d \<Rightarrow> d | None \<Rightarrow> RecordP (Obj [])))
          in
          (case serverActionRequest_call js d of
             None \<Rightarrow> None
           | Some (Invoked formData) \<Rightarrow>
               Some (s5\<lparr>actionCalls := actionCalls s5 @ [formData]\<rparr>,
                     Some \<lparr>signal = c, flight = Invoked formData\<rparr>)
           | Some (NotInvoked r) \<Rightarrow>
               Some (s5, Some \<lparr>signal = c, flight = NotInvoked r\<rparr>)))"

text \<open>Calling an optional callback: the log grows, and the callback may throw.\<close>

definition call_onSuccess :: "'n options \<Rightarrow> 'n jsval \<Rightarrow> 'n session \<Rightarrow> 'n session \<times> 'n jsval option" where
  "call_onSuccess opts v s =
     (case onSuccess opts of
        None \<Rightarrow> (s, None)
      | Some f \<Rightarrow> (s\<lparr>successCalls := successCalls s @ [v]\<rparr>, f v))"

definition call_onError :: "'n options \<Rightarrow> 'n jsval \<Rightarrow> 'n session \<Rightarrow> 'n session \<times> 'n jsval option" where
  "call_onError opts v s =
     (case onError opts of
        None \<Rightarrow> (s, None)
      | Some f \<Rightarrow> (s\<lparr>errorCalls := errorCalls s @ [v]\<rparr>, f v))"

text \<open>
  The \<open>catch\<close> block of \<open>execute\<close>, entered with a signal that is not aborted,
  followed by \<open>finally\<close>.  Reading \<open>err.message\<close> of \<open>null\<close> or \<open>undefined\<close> raises
  a TypeError that leaves the block at once.
\<close>

definition execute_catch :: "'n builtins \<Rightarrow> 'n options \<Rightarrow> 'n jsval \<Rightarrow> 'n session \<Rightarrow> 'n session" where
  "execute_catch js opts err s =
     (if err = Null \<or> err = Undefined then s\<lparr>loading := False\<rparr>
      else
        let errorMessage = orElse js (read_prop err ''message'') (Str ''An unexpected error occurred'');
            s1 = s\<lparr>error := errorMessage\<rparr>;
            (s2, thrown) = call_onError opts errorMessage s1
        in s2\<lparr>loading := False\<rparr>)"

definition start_cache_timeout :: "'n options \<Rightarrow> 'n session \<Rightarrow> 'n session" where
  "start_cache_timeout opts s =
     (if cacheTime opts > 0 then
        let s1 = clear_cache_timeout s; t = timerCount s1
        in s1\<lparr>cacheTimeoutRef := Some t, timers := insert t (timers s1), timerCount := Suc t\<rparr>
      else s)"

text \<open>
  \<open>execute\<close> after its \<open>await\<close>, for the request with signal \<open>sig\<close>, when
  \<open>serverActionRequest\<close> has settled: resolved with a response (\<open>Inr\<close>) or
  rejected (\<open>Inl\<close>).
\<close>

definition execute_resume ::
  "'n builtins \<Rightarrow> 'n options \<Rightarrow> nat \<Rightarrow> 'n jsval + 'n response \<Rightarrow> 'n session \<Rightarrow> 'n session" where
  "execute_resume js opts sig awaited s =
     (if sig \<in> aborted s then s
      else
        (case awaited of
           Inl err \<Rightarrow> execute_catch js opts err s
         | Inr (Success m d) \<Rightarrow>
             (let s1 = s\<lparr>data := d\<rparr>;
                  (s2, thrown) = call_onSuccess opts d s1
              in case thrown of
                   Some err \<Rightarrow> execute_catch js opts err s2
                 | None \<Rightarrow> (start_cache_timeout opts s2)\<lparr>loading := False\<rparr>)
         | Inr (Failure m e) \<Rightarrow>
             (let errorMessage = orElse js m (Str ''Operation failed'');
                  s1 = s\<lparr>error := errorMessage\<rparr>;
                  (s2, thrown) = call_onError opts errorMessage s1
              in case thrown of
                   Some err \<Rightarrow> execute_catch js opts err s2
                 | None \<Rightarrow> s2\<lparr>loading := False\<rparr>)))"

text \<open>The arrival of the action's outcome for a pending request.\<close>

definition deliver ::
  "'n builtins \<Rightarrow> 'n options \<Rightarrow> 'n pending \<Rightarrow> 'n arrival \<Rightarrow> 'n session \<Rightarrow> 'n session" where
  "deliver js opts p a s =
     execute_resume js opts (signal p) (serverActionRequest_result js (flight p) a) s"

text \<open>The other operations of the hook, the cache timer firing, and the cleanup on unmount.\<close>

definition refetch ::
  "'n builtins \<Rightarrow> 'n options \<Rightarrow> bool \<Rightarrow> int \<Rightarrow> 'n session \<Rightarrow> ('n session \<times> 'n pending option) option" where
  "refetch js opts seenLoading now s = execute_call js opts seenLoading now (lastRequestDataRef s) s"

definition reset :: "'n session \<Rightarrow> 'n session" where
  "reset s =
     clear_cache_timeout
       (abort_current (s\<lparr>data := Undefined, error := Undefined, lastRequestDataRef := None\<rparr>))"

definition mutate :: "'n jsval \<Rightarrow> 'n session \<Rightarrow> 'n session" where
  "mutate newData s = (clear_cache_timeout (s\<lparr>data := newData\<rparr>))\<lparr>cacheTimeoutRef := None\<rparr>"

definition optimisticMutate :: "('n jsval \<Rightarrow> 'n jsval) \<Rightarrow> 'n session \<Rightarrow> 'n session" where
  "optimisticMutate updateFn s = s\<lparr>data := updateFn (data s)\<rparr>"

definition unmount :: "'n session \<Rightarrow> 'n session" where
  "unmount s = clear_cache_timeout (abort_current s)"

definition cache_timeout_fires :: "nat \<Rightarrow> 'n session \<Rightarrow> 'n session" where
  "cache_timeout_fires t s =
     (if t \<in> timers s then s\<lparr>data := Undefined, timers := timers s - {t}\<rparr> else s)"

section \<open>A small runtime for examples\<close>

text \<open>
  The closed examples below run the definitions on a concrete runtime whose
  numbers are the integers.  \<open>sample_Number\<close> is \<open>Number\<close> on the strings it is
  applied to there: the empty string is \<open>0\<close>, an optionally signed run of
  decimal digits is that integer, and text that is no numeric literal is NaN.
  (It does not know the other numeric spellings of JavaScript: fractions,
  exponents, radix prefixes, \<open>Infinity\<close>, surrounding white space.)
  The only date it knows is the epoch, the strings it splits into characters
  are ASCII, and the walks it takes through an inherited member are those that
  write a new property into a built-in object and complete.
\<close>

definition sample_Number :: "string \<Rightarrow> int option" where
  "sample_Number s =
     (if s = [] then Some 0
      else case s of
             c # r \<Rightarrow>
               if c = CHR ''-'' then map_option (\<lambda>n. - int n) (parse_nat r)
               else if c = CHR ''+'' then map_option int (parse_nat r)
               else map_option int (parse_nat s)
           | [] \<Rightarrow> None)"

definition sample_String :: "int \<Rightarrow> string" where
  "sample_String i = (if i < 0 then CHR ''-'' # nat_str (nat (- i)) else nat_str (nat i))"

definition object_prototype_names :: "string list" where
  "object_prototype_names =
     [''constructor'', ''__proto__'', ''hasOwnProperty'', ''isPrototypeOf'',
      ''propertyIsEnumerable'', ''toLocaleString'', ''toString'', ''valueOf'',
      ''__defineGetter__'', ''__defineSetter__'', ''__lookupGetter__'', ''__lookupSetter__'']"

definition array_prototype_names :: "string list" where
  "array_prototype_names =
     [''at'', ''concat'', ''copyWithin'', ''entries'', ''every'', ''fill'', ''filter'', ''find'',
      ''findIndex'', ''findLast'', ''findLastIndex'', ''flat'', ''flatMap'', ''forEach'',
      ''includes'', ''indexOf'', ''join'', ''keys'', ''lastIndexOf'', ''map'', ''pop'', ''push'',
      ''reduce'', ''reduceRight'', ''reverse'', ''shift'', ''slice'', ''some'', ''sort'',
      ''splice'', ''toReversed'', ''toSorted'', ''toSpliced'', ''unshift'', ''values'', ''with'']"

definition sample_js :: "int builtins" where
  "sample_js =
     \<lparr> toNumber = sample_Number,
       numToString = sample_String,
       numIsZero = (\<lambda>i. i = 0),
       parseDate = (\<lambda>s. if s = ''1970-01-01T00:00:00.000Z'' then Some 0 else None),
       toISOString = (\<lambda>t. if t = 0 then ''1970-01-01T00:00:00.000Z'' else []),
       dateToString = (\<lambda>t. []),
       stringChars = map (\<lambda>c. [c]),
       numOfNat = int,
       lengthOf = (\<lambda>i. if 0 \<le> i \<and> i < 4294967296 then Some (nat i) else None),
       objectProto = (\<lambda>k. k \<in> set object_prototype_names),
       arrayProto = (\<lambda>k. k \<in> set object_prototype_names \<or> k \<in> set array_prototype_names),
       viaInherited = (\<lambda>isArray member keys v. None),
       engineMessage = (\<lambda>e. case e of TypeError \<Rightarrow> ''type error'' | RangeError \<Rightarrow> ''Invalid time value'') \<rparr>"

section \<open>Histories of a session\<close>

text \<open>
  What can happen to a hook instance, one event at a time.  The options are
  those of the render whose callbacks are called, so each event carries its
  own.
\<close>

datatype 'n event =
    Execute "'n options" bool int "'n request_data option"
  | Refetch "'n options" bool int
  | Deliver "'n options" "'n pending" "'n arrival"
  | Reset
  | Mutate "'n jsval"
  | OptimisticMutate "'n jsval \<Rightarrow> 'n jsval"
  | CacheTimeout nat
  | Unmount

fun apply_event :: "'n builtins \<Rightarrow> 'n event \<Rightarrow> 'n session \<Rightarrow> 'n session option" where
  "apply_event js (Execute opts seenLoading now requestData) s =
     map_option fst (execute_call js opts seenLoading now requestData s)"
| "apply_event js (Refetch opts seenLoading now) s =
     map_option fst (refetch js opts seenLoading now s)"
| "apply_event js (Deliver opts p a) s = Some (deliver js opts p a s)"
| "apply_event js Reset s = Some (reset s)"
| "apply_event js (Mutate v) s = Some (mutate v s)"
| "apply_event js (OptimisticMutate f) s = Some (optimisticMutate f s)"
| "apply_event js (CacheTimeout t) s = Some (cache_timeout_fires t s)"
| "apply_event js Unmount s = Some (unmount s)"

fun run :: "'n builtins \<Rightarrow> 'n event list \<Rightarrow> 'n session \<Rightarrow> 'n session option" where
  "run js [] s = Some s"
| "run js (ev # evs) s = (case apply_event js ev s of None \<Rightarrow> None | Some s' \<Rightarrow> run js evs s')"

text \<open>The options of a hook that is given nothing but its action.\<close>

definition default_options :: "'n options" where
  "default_options =
     \<lparr> condition = None, cacheTime = 0, dedupingInterval = 2000, onSuccess = None, onError = None \<rparr>"

text \<open>
  A controller is either still the current one or already aborted: once a
  request has started, this holds of its controller for ever.
\<close>

definition held_or_aborted :: "nat \<Rightarrow> 'n session \<Rightarrow> bool" where
  "held_or_aborted c s = (abortControllerRef s = Some c \<or> c \<in> aborted s)"

section \<open>Notions for the round trip\<close>

text \<open>
  The entries of a value by path segments rather than by key string: what the
  encoder writes for a leaf, and the segments that lead to each leaf.
\<close>

fun leaf_entry :: "'n builtins \<Rightarrow> 'n jsval \<Rightarrow> 'n entry" where
  "leaf_entry js Undefined = EStr []"
| "leaf_entry js Null = EStr []"
| "leaf_entry js Hole = EStr []"
| "leaf_entry js v = EStr (toUSVString (js_String js v))"

function (sequential) paths :: "'n builtins \<Rightarrow> 'n jsval \<Rightarrow> (string list \<times> 'n entry) list"
  and paths_items :: "'n builtins \<Rightarrow> 'n jsval list \<Rightarrow> nat \<Rightarrow> (string list \<times> 'n entry) list"
  and paths_fields :: "'n builtins \<Rightarrow> (string \<times> 'n jsval) list \<Rightarrow> (string list \<times> 'n entry) list"
where
  "paths js (Arr xs ps) = paths_items js xs 0"
| "paths js (Obj kvs) = paths_fields js kvs"
| "paths js v = [([], leaf_entry js v)]"
| "paths_items js [] i = []"
| "paths_items js (x # xs) i =
     (if x = Hole then [] else map (apfst ((#) (nat_str i))) (paths js x)) @
     paths_items js xs (Suc i)"
| "paths_fields js [] = []"
| "paths_fields js ((k, v) # kvs) = map (apfst ((#) k)) (paths js v) @ paths_fields js kvs"
  by pat_completeness auto

termination
  by (relation "measure (\<lambda>x. case x of
          Inl (js, v) \<Rightarrow> 2 * size v
        | Inr (Inl (js, xs, i)) \<Rightarrow> 2 * size_list size xs + 1
        | Inr (Inr (js, kvs)) \<Rightarrow> 2 * size_list (size_prod (\<lambda>x. 0) size) kvs + 1)") auto

fun set_paths :: "'n builtins \<Rightarrow> (string list \<times> 'n entry) list \<Rightarrow> 'n jsval \<Rightarrow> ('n, 'n jsval) comp" where
  "set_paths js [] c = Inr c"
| "set_paths js ((q, e) # es) c = andThen (set_path js c q (processValue js e)) (set_paths js es)"

text \<open>
  The values whose encoding says where their leaves are.

  A key is a segment when it is not empty, holds no dot or bracket and is a
  scalar value string (\<open>append\<close> leaves it as it is).  A key fits its value
  when it is a segment and the decoder can store the value under it: a
  container needs a key that plain objects do not inherit, a scalar any key
  but an inherited \<open>__proto__\<close>.  The keys of an object are distinct and in the
  order of \<open>Object.keys\<close> (\<open>js_ordered\<close>; this is how objects are represented,
  and excludes none).

  A nested value is safe when it is a scalar (undefined, null, a boolean, NaN,
  a number or a string), an array that is not empty, does not end with a hole,
  has no named property and holds safe values at the indices it has, or an
  object that is not empty, has no own key \<open>constructor\<close>, whose first key is
  not numeric, and whose keys fit their values, which are safe.  The root is
  an object whose keys fit their values, which are safe; it may be empty, and
  it may have numeric keys and a key \<open>constructor\<close>.
\<close>

definition segment :: "string \<Rightarrow> bool" where
  "segment k = (k \<noteq> [] \<and> \<not> list_ex is_delim k \<and> toUSVString k = k)"

fun js_ordered :: "string list \<Rightarrow> bool" where
  "js_ordered [] = True"
| "js_ordered (k # ks) = (list_all (\<lambda>k'. \<not> key_precedes k' k) ks \<and> js_ordered ks)"

definition key_fits :: "'n builtins \<Rightarrow> string \<Rightarrow> 'n jsval \<Rightarrow> bool" where
  "key_fits js k v =
     (segment k \<and>
      (if is_array v \<or> is_object v then \<not> objectProto js k
       else \<not> (k = ''__proto__'' \<and> objectProto js k)))"

fun codec_safe :: "'n builtins \<Rightarrow> 'n jsval \<Rightarrow> bool" where
  "codec_safe js (Arr xs ps) =
     (ps = [] \<and> xs \<noteq> [] \<and> last xs \<noteq> Hole \<and> length xs \<le> 4294967295 \<and>
      list_all (\<lambda>x. x = Hole \<or> codec_safe js x) xs)"
| "codec_safe js (Obj kvs) =
     (kvs \<noteq> [] \<and> toNumber js (fst (hd kvs)) = None \<and> ''constructor'' \<notin> fst ` set kvs \<and>
      distinct (map fst kvs) \<and> js_ordered (map fst kvs) \<and>
      list_all (\<lambda>p. key_fits js (fst p) (snd p) \<and> codec_safe js (snd p)) kvs)"
| "codec_safe js (DateV d) = False"
| "codec_safe js (FileV n s t) = False"
| "codec_safe js (BlobV s t) = False"
| "codec_safe js (ErrorV n m) = False"
| "codec_safe js Hole = False"
| "codec_safe js v = True"

definition codec_root :: "'n builtins \<Rightarrow> 'n jsval \<Rightarrow> bool" where
  "codec_root js v =
     (case v of
        Obj kvs \<Rightarrow> distinct (map fst kvs) \<and> js_ordered (map fst kvs) \<and>
                   list_all (\<lambda>p. key_fits js (fst p) (snd p) \<and> codec_safe js (snd p)) kvs
      | _ \<Rightarrow> False)"

text \<open>
  What decoding the encoding of such a value gives: the same tree, with the
  same holes, each leaf replaced by what the decoder infers from the string
  the encoder wrote for it.
\<close>

fun decoded :: "'n builtins \<Rightarrow> 'n jsval \<Rightarrow> 'n jsval" where
  "decoded js (Arr xs ps) = Arr (map (decoded js) xs) ps"
| "decoded js (Obj kvs) = Obj (map (\<lambda>p. (fst p, decoded js (snd p))) kvs)"
| "decoded js Hole = Hole"
| "decoded js v = processValue js (leaf_entry js v)"

text \<open>What the induction on a value proves: its paths rebuild what \<open>decoded\<close> says.\<close>

definition rebuilds :: "'n builtins \<Rightarrow> 'n jsval \<Rightarrow> bool" where
  "rebuilds js w =
     (codec_safe js w \<longrightarrow>
        (is_array w \<longrightarrow> set_paths js (paths js w) (Arr [] []) = Inr (decoded js w)) \<and>
        (is_object w \<longrightarrow> set_paths js (paths js w) (Obj []) = Inr (decoded js w)))"

section \<open>Notions for the walk of the decoder\<close>



section \<open>Notions for the wrapper\<close>


section \<open>Basic facts\<close>

declare nat_str.simps [simp del]

lemma andThen_simps [simp]:
  "andThen (Inl e) f = Inl e" "andThen (Inr a) f = f a"
  by (simp_all add: andThen_def)

lemma andThen_Inr_iff: "andThen m f = Inr b \<longleftrightarrow> (\<exists>a. m = Inr a \<and> f a = Inr b)"
  by (cases m) simp_all

lemma throwEngine_not_Inr [simp]: "throwEngine js k \<noteq> Inr v" "Inr v \<noteq> throwEngine js k"
  by (simp_all add: throwEngine_def)

lemma formDataToObject_empty: "formDataToObject js [] = Inr (Obj [])"
  by (simp add: formDataToObject_def)

lemma sample_fields [simp]:
  "toNumber sample_js = sample_Number"
  "numToString sample_js = sample_String"
  "parseDate sample_js = (\<lambda>s. if s = ''1970-01-01T00:00:00.000Z'' then Some 0 else None)"
  "numIsZero sample_js = (\<lambda>i. i = 0)"
  "objectProto sample_js = (\<lambda>k. k \<in> set object_prototype_names)"
  "arrayProto sample_js = (\<lambda>k. k \<in> set object_prototype_names \<or> k \<in> set array_prototype_names)"
  "viaInherited sample_js = (\<lambda>isArray member keys v. None)"
  "numOfNat sample_js = int"
  "lengthOf sample_js = (\<lambda>i. if 0 \<le> i \<and> i < 4294967296 then Some (nat i) else None)"
  "stringChars sample_js = map (\<lambda>c. [c])"
  "engineMessage sample_js =
     (\<lambda>e. case e of TypeError \<Rightarrow> ''type error'' | RangeError \<Rightarrow> ''Invalid time value'')"
  by (simp_all add: sample_js_def)

lemma objectToFormData_empty: "objectToFormData js (Obj []) = Inr []"
  by (simp add: objectToFormData_def objectToFormData_prefix_def)

section \<open>Type inference of the decoder\<close>

lemma matches_iso_date_epoch: "matches_iso_date ''1970-01-01T00:00:00.000Z''"
  by (simp add: matches_iso_date_def iso_date_pattern_def is_digit_def)

lemma sample_Number_30: "sample_Number ''30'' = Some 30"
  by (simp add: sample_Number_def parse_nat_def is_digit_def)

lemma sample_Number_text:
  "sample_Number ''true'' = None" "sample_Number ''false'' = None" "sample_Number ''John'' = None"
  by (simp_all add: sample_Number_def parse_nat_def is_digit_def)

lemma not_iso_date_short:
  "\<not> matches_iso_date ''30''" "\<not> matches_iso_date ''true''" "\<not> matches_iso_date ''false''"
  "\<not> matches_iso_date ''John''" "\<not> matches_iso_date []"
  by (simp_all add: matches_iso_date_def iso_date_pattern_def is_digit_def)

text \<open>
  Claim C7.  The value the decoder stores for a string entry is found by these
  tests, in this order: (a) a string that starts with the ISO date-time pattern
  becomes a date; (b) otherwise a non-empty string that \<open>Number\<close> reads as a
  number becomes that number; (c) otherwise \<open>true\<close> and \<open>false\<close> become the
  booleans; (d) otherwise the empty string becomes null; (e) any other string is
  kept.  A \<open>File\<close> entry is stored as it is.
\<close>

theorem processValue_order:
  "(matches_iso_date s \<longrightarrow> processValue js (EStr s) = DateV (parseDate js s)) \<and>
   (\<not> matches_iso_date s \<and> s \<noteq> [] \<and> toNumber js s = Some n \<longrightarrow> processValue js (EStr s) = Num n) \<and>
   (\<not> matches_iso_date s \<and> toNumber js s = None \<and> s = ''true'' \<longrightarrow>
      processValue js (EStr s) = Bool True) \<and>
   (\<not> matches_iso_date s \<and> toNumber js s = None \<and> s = ''false'' \<longrightarrow>
      processValue js (EStr s) = Bool False) \<and>
   (s = [] \<longrightarrow> processValue js (EStr s) = Null) \<and>
   (\<not> matches_iso_date s \<and> toNumber js s = None \<and> s \<noteq> ''true'' \<and> s \<noteq> ''false'' \<and> s \<noteq> []
      \<longrightarrow> processValue js (EStr s) = Str s) \<and>
   processValue js (EFile name sz ty) = FileV name sz ty"
  by (auto simp: processValue_def matches_iso_date_def iso_date_pattern_def)

theorem processValue_order_witness:
  "processValue sample_js (EStr ''1970-01-01T00:00:00.000Z'') = DateV (Some 0) \<and>
   processValue sample_js (EStr ''30'') = Num 30 \<and>
   processValue sample_js (EStr ''true'') = Bool True \<and>
   processValue sample_js (EStr ''false'') = Bool False \<and>
   processValue sample_js (EStr []) = Null \<and>
   processValue sample_js (EStr ''John'') = Str ''John''"
  using processValue_order [of "''1970-01-01T00:00:00.000Z''" sample_js]
    processValue_order [of "''30''" sample_js 30]
    processValue_order [of "''true''" sample_js]
    processValue_order [of "''false''" sample_js]
    processValue_order [of "[]" sample_js]
    processValue_order [of "''John''" sample_js]
  by (simp add: matches_iso_date_epoch sample_Number_30 sample_Number_text not_iso_date_short)

section \<open>The round trip of the codec\<close>

subsection \<open>Numerals and path keys\<close>


lemma digit_cases: "d < 10 \<Longrightarrow> d = 0 \<or> d = 1 \<or> d = 2 \<or> d = 3 \<or> d = 4 \<or> d = 5 \<or> d = 6 \<or> d = 7 \<or> d = 8 \<or> d = (9::nat)"
  by arith

lemma digit_char_props:
  assumes "d < 10"
  shows "is_digit (digit_char d)" "(of_char (digit_char d) :: nat) - 48 = d" "\<not> is_delim (digit_char d)"
  using digit_cases [OF assms]
  by (auto simp: digit_char_def is_digit_def is_delim_def)

lemma nat_str_nonempty: "nat_str n \<noteq> []"
  by (subst nat_str.simps) simp

lemma nat_str_digits: "list_all is_digit (nat_str n)"
proof (induction n rule: nat_str.induct)
  case (1 n)
  show ?case
  proof (cases "n < 10")
    case True
    then show ?thesis by (subst nat_str.simps) (simp add: digit_char_props)
  next
    case False
    with 1 show ?thesis by (subst nat_str.simps) (simp add: digit_char_props)
  qed
qed

lemma nat_str_value: "foldl (\<lambda>a c. 10 * a + ((of_char c :: nat) - 48)) 0 (nat_str n) = n"
proof (induction n rule: nat_str.induct)
  case (1 n)
  show ?case
  proof (cases "n < 10")
    case True
    then show ?thesis by (subst nat_str.simps) (simp add: digit_char_props)
  next
    case False
    with 1 show ?thesis by (subst nat_str.simps) (simp add: digit_char_props)
  qed
qed

lemma parse_nat_nat_str: "parse_nat (nat_str n) = Some n"
  by (simp add: parse_nat_def nat_str_nonempty nat_str_digits nat_str_value)

lemma array_index_nat_str: "n < 4294967295 \<Longrightarrow> array_index (nat_str n) = Some n"
  by (simp add: array_index_def parse_nat_nat_str)

lemma is_digit_not_delim: "is_digit c \<Longrightarrow> \<not> is_delim c"
  by (auto simp: is_digit_def is_delim_def)

lemma nat_str_no_delim: "\<not> list_ex is_delim (nat_str n)"
  using nat_str_digits [of n] by (induction "nat_str n") (auto simp: list_all_iff list_ex_iff is_digit_not_delim)

lemma split_on_nonempty: "split_on p s \<noteq> []"
  by (induction s) (auto split: list.splits)

lemma split_on_plain: "\<not> list_ex p w \<Longrightarrow> split_on p w = [w]"
  by (induction w) auto

lemma split_on_append:
  "p d \<Longrightarrow> split_on p (a @ d # b) = split_on p a @ split_on p b"
proof (induction a)
  case Nil
  then show ?case by simp
next
  case (Cons c a)
  then show ?case
    using split_on_nonempty [of p a]
    by (cases "split_on p a") auto
qed

lemma path_keys_append: "is_delim d \<Longrightarrow> path_keys (a @ d # b) = path_keys a @ path_keys b"
  by (simp add: path_keys_def split_on_append)

lemma path_keys_plain: "w \<noteq> [] \<Longrightarrow> \<not> list_ex is_delim w \<Longrightarrow> path_keys w = [w]"
  by (simp add: path_keys_def split_on_plain)

lemma path_keys_Nil: "path_keys [] = []"
  by (simp add: path_keys_def)

lemma path_keys_index: "path_keys (key @ ''['' @ nat_str i @ '']'') = path_keys key @ [nat_str i]"
proof -
  have "path_keys (key @ ''['' @ nat_str i @ '']'') = path_keys key @ path_keys (nat_str i @ '']'')"
    using path_keys_append [of "CHR ''[''" key "nat_str i @ '']''"] by (simp add: is_delim_def)
  also have "path_keys (nat_str i @ '']'') = path_keys (nat_str i) @ path_keys []"
    using path_keys_append [of "CHR '']''" "nat_str i" "[]"] by (simp add: is_delim_def)
  finally show ?thesis
    by (simp add: path_keys_plain nat_str_nonempty nat_str_no_delim path_keys_Nil)
qed

lemma path_keys_field:
  assumes "k \<noteq> []" "\<not> list_ex is_delim k"
  shows "path_keys (if key \<noteq> [] then key @ ''.'' @ k else k) = path_keys key @ [k]"
proof (cases "key = []")
  case True
  with assms show ?thesis by (simp add: path_keys_plain path_keys_Nil)
next
  case False
  have "path_keys (key @ ''.'' @ k) = path_keys key @ path_keys k"
    using path_keys_append [of "CHR ''.''" key k] by (simp add: is_delim_def)
  with False assms show ?thesis by (simp add: path_keys_plain)
qed

lemma andThen_assoc: "andThen (andThen m f) g = andThen m (\<lambda>a. andThen (f a) g)"
  by (cases m) simp_all

lemma path_keys_index_simp [simp]:
  "path_keys (key @ CHR ''['' # nat_str i @ '']'') = path_keys key @ [nat_str i]"
  using path_keys_index [of key i] by simp

lemma segment_path_simp:
  "segment k \<Longrightarrow> key \<noteq> [] \<Longrightarrow> path_keys (key @ CHR ''.'' # k) = path_keys key @ [k]"
  "segment k \<Longrightarrow> path_keys k = [k]"
  using path_keys_field [of k key] path_keys_field [of k "[]"]
  by (simp_all add: path_keys_Nil segment_def)

lemma apfst_append_Cons:
  "apfst ((@) p) (apfst ((#) k) x) = apfst ((@) (p @ [k])) x"
  by (cases x) simp

subsection \<open>Scalar value strings\<close>

lemma toUSVString_ascii_Cons:
  "(of_char c :: nat) < 128 \<Longrightarrow> toUSVString (c # s) = c # toUSVString s"
proof (cases s)
  case Nil
  then show ?thesis by simp
next
  case (Cons a s')
  assume "(of_char c :: nat) < 128"
  with Cons show ?thesis by (cases s') simp_all
qed

lemma toUSVString_one:
  "(of_char c :: nat) < 128 \<Longrightarrow> toUSVString (x # c # s) = x # c # toUSVString s"
  by (cases s) (simp_all add: toUSVString_ascii_Cons)

lemma toUSVString_append_ascii:
  "(of_char c :: nat) < 128 \<Longrightarrow> toUSVString (a @ c # b) = toUSVString a @ c # toUSVString b"
  by (induction a rule: toUSVString.induct) (simp_all add: toUSVString_ascii_Cons toUSVString_one)

lemma toUSVString_digits: "list_all is_digit s \<Longrightarrow> toUSVString s = s"
  by (induction s) (simp_all add: toUSVString_ascii_Cons is_digit_def)

lemma toUSVString_index:
  assumes "toUSVString key = key"
  shows "toUSVString (key @ CHR ''['' # nat_str i @ '']'') = key @ CHR ''['' # nat_str i @ '']''"
proof -
  have "toUSVString (nat_str i @ CHR '']'' # []) = nat_str i @ '']''"
    by (subst toUSVString_append_ascii) (simp_all add: toUSVString_digits nat_str_digits)
  then show ?thesis
    using assms by (subst toUSVString_append_ascii) simp_all
qed

lemma toUSVString_field:
  assumes "toUSVString key = key" "segment k"
  shows "toUSVString (key @ CHR ''.'' # k) = key @ CHR ''.'' # k"
  using assms by (subst toUSVString_append_ascii) (simp_all add: segment_def)

subsection \<open>The entries of the encoder, by path\<close>

lemma encoder_paths:
  "codec_safe js v \<longrightarrow> toUSVString key = key \<longrightarrow>
     (\<exists>es. appendToFormData js v key = Inr es \<and>
           map (apfst path_keys) es = map (apfst ((@) (path_keys key))) (paths js v))"
  "list_all (\<lambda>x. x = Hole \<or> codec_safe js x) xs \<longrightarrow> toUSVString key = key \<longrightarrow>
     (\<exists>es. append_items js xs i key = Inr es \<and>
           map (apfst path_keys) es = map (apfst ((@) (path_keys key))) (paths_items js xs i))"
  "list_all (\<lambda>p. key_fits js (fst p) (snd p) \<and> codec_safe js (snd p)) kvs \<longrightarrow>
   toUSVString key = key \<longrightarrow>
     (\<exists>es. append_fields js kvs key = Inr es \<and>
           map (apfst path_keys) es = map (apfst ((@) (path_keys key))) (paths_fields js kvs))"
proof (induction js v key and js xs i key and js kvs key
       rule: appendToFormData_append_items_append_fields.induct)
  case (6 js xs ps key)
  show ?case
  proof (intro impI)
    assume safe: "codec_safe js (Arr xs ps)" and key: "toUSVString key = key"
    then have "''forEach'' \<notin> fst ` set ps" "list_all (\<lambda>x. x = Hole \<or> codec_safe js x) xs"
      by simp_all
    with 6 key show "\<exists>es. appendToFormData js (Arr xs ps) key = Inr es \<and>
           map (apfst path_keys) es = map (apfst ((@) (path_keys key))) (paths js (Arr xs ps))"
      by simp
  qed
next
  case (7 js kvs key)
  show ?case
  proof (intro impI)
    assume safe: "codec_safe js (Obj kvs)" and key: "toUSVString key = key"
    then have "''constructor'' \<notin> fst ` set kvs"
        "list_all (\<lambda>p. key_fits js (fst p) (snd p) \<and> codec_safe js (snd p)) kvs"
      by simp_all
    with 7 key show "\<exists>es. appendToFormData js (Obj kvs) key = Inr es \<and>
           map (apfst path_keys) es = map (apfst ((@) (path_keys key))) (paths js (Obj kvs))"
      by simp
  qed
next
  case (15 js x xs i key)
  show ?case
  proof (intro impI)
    assume all: "list_all (\<lambda>x. x = Hole \<or> codec_safe js x) (x # xs)"
       and key: "toUSVString key = key"
    then have sxs: "list_all (\<lambda>x. x = Hole \<or> codec_safe js x) xs"
      by simp
    show "\<exists>es. append_items js (x # xs) i key = Inr es \<and>
           map (apfst path_keys) es = map (apfst ((@) (path_keys key))) (paths_items js (x # xs) i)"
    proof (cases "x = Hole")
      case True
      with 15(1) sxs key show ?thesis
        by simp
    next
      case nh: False
      with all have sx: "codec_safe js x"
        by simp
      have key': "toUSVString (key @ ''['' @ nat_str i @ '']'') = key @ ''['' @ nat_str i @ '']''"
        using toUSVString_index [OF key] by simp
      from 15(2) [OF nh] sx key' obtain a where
        a: "appendToFormData js x (key @ ''['' @ nat_str i @ '']'') = Inr a"
        "map (apfst path_keys) a =
           map (apfst ((@) (path_keys (key @ ''['' @ nat_str i @ '']'')))) (paths js x)"
        by blast
      from 15(3) [OF nh] sxs key obtain b where b: "append_items js xs (Suc i) key = Inr b"
        "map (apfst path_keys) b = map (apfst ((@) (path_keys key))) (paths_items js xs (Suc i))"
        by blast
      from a b nh show ?thesis
        by (simp add: apfst_append_Cons)
    qed
  qed
next
  case (17 js nestedKey nestedValue kvs key)
  show ?case
  proof (intro impI)
    assume "list_all (\<lambda>p. key_fits js (fst p) (snd p) \<and> codec_safe js (snd p))
              ((nestedKey, nestedValue) # kvs)"
       and key: "toUSVString key = key"
    then have pk: "segment nestedKey" and sv: "codec_safe js nestedValue"
      and rest: "list_all (\<lambda>p. key_fits js (fst p) (snd p) \<and> codec_safe js (snd p)) kvs"
      by (simp_all add: key_fits_def)
    let ?fullKey = "if key \<noteq> [] then key @ ''.'' @ nestedKey else nestedKey"
    have key': "toUSVString ?fullKey = ?fullKey"
      using toUSVString_field [OF key pk] pk by (simp add: segment_def)
    from 17(1) sv key' obtain a where a: "appendToFormData js nestedValue ?fullKey = Inr a"
      "map (apfst path_keys) a = map (apfst ((@) (path_keys ?fullKey))) (paths js nestedValue)"
      by blast
    from 17(2) rest key obtain b where b: "append_fields js kvs key = Inr b"
      "map (apfst path_keys) b = map (apfst ((@) (path_keys key))) (paths_fields js kvs)"
      by blast
    from a b show "\<exists>es. append_fields js ((nestedKey, nestedValue) # kvs) key = Inr es \<and>
           map (apfst path_keys) es =
             map (apfst ((@) (path_keys key))) (paths_fields js ((nestedKey, nestedValue) # kvs))"
      by (simp add: segment_path_simp [OF pk] apfst_append_Cons path_keys_Nil)
  qed
qed (simp_all add: apfst_def append_entry_def)

subsection \<open>Properties of a container\<close>

lemma map_of_put_prop: "map_of (put_prop k v kvs) k = Some v"
  by (induction kvs) auto

lemma put_prop_twice: "put_prop k v2 (put_prop k v kvs) = put_prop k v2 kvs"
  by (induction kvs) auto

lemma put_prop_key: "k \<in> fst ` set (put_prop k v kvs)"
  using map_of_put_prop [of k v kvs] by (metis map_of_eq_None_iff option.distinct(1))

lemma put_prop_append:
  "k \<notin> fst ` set kvs \<Longrightarrow> list_all (\<lambda>k'. \<not> key_precedes k k') (map fst kvs) \<Longrightarrow>
     put_prop k v kvs = kvs @ [(k, v)]"
  by (induction kvs) auto

lemma js_ordered_mid:
  "js_ordered (ds @ k # rest) \<Longrightarrow> list_all (\<lambda>k'. \<not> key_precedes k k') ds"
  by (induction ds) (auto simp: list_all_iff)

lemma arr_set_nth: "i < length (arr_set xs i v) \<and> arr_set xs i v ! i = v"
  by (auto simp: arr_set_def nth_append)

lemma arr_set_twice: "arr_set (arr_set xs i v) i v2 = arr_set xs i v2"
proof (cases "i < length xs")
  case True
  then show ?thesis by (simp add: arr_set_def)
next
  case False
  then obtain m where m: "i = length xs + m"
    by (metis le_Suc_ex not_less)
  have "(replicate m Hole @ [v])[m := v2] = replicate m (Hole :: 'a jsval) @ [v2]"
    using list_update_length [of "replicate m Hole" v "[]" v2] by simp
  with m show ?thesis
    by (simp add: arr_set_def list_update_append)
qed

lemma arr_set_end: "arr_set xs (length xs) v = xs @ [v]"
  by (simp add: arr_set_def)

lemma array_index_length [simp]: "array_index ''length'' = None"
  by (simp add: array_index_def parse_nat_def is_digit_def)

text \<open>
  A key is regular for a container when \<open>put_back\<close> stores under it: any key
  of an object, any key of an array but \<open>length\<close>.
\<close>

lemma get_put_back:
  "is_object c \<or> is_array c \<and> k \<noteq> ''length'' \<Longrightarrow> v \<noteq> Hole \<Longrightarrow>
     get_prop js (put_back c k v) k = v"
  by (cases c) (auto simp: map_of_put_prop arr_set_nth split: option.splits)

lemma own_put_back:
  "is_object c \<or> is_array c \<and> k \<noteq> ''length'' \<Longrightarrow> v \<noteq> Hole \<Longrightarrow> own_prop (put_back c k v) k"
  by (cases c) (auto simp: put_prop_key arr_set_nth split: option.splits)

lemma put_back_twice: "put_back (put_back c k v) k v2 = put_back c k v2"
  by (cases c) (auto simp: put_prop_twice arr_set_twice split: option.splits)

lemma put_back_kind [simp]:
  "is_array (put_back c k v) = is_array c" "is_object (put_back c k v) = is_object c"
  by (cases c; simp split: option.splits)+

lemma has_prop_own: "own_prop c k \<Longrightarrow> has_prop js c k = Inr True"
  by (cases c) simp_all

lemma has_prop_container: "has_prop js c k = Inr b \<Longrightarrow> is_array c \<or> is_object c"
  by (cases c) (simp_all add: throwEngine_def)

lemma has_prop_value:
  "has_prop js c k = Inr b \<Longrightarrow> b = (own_prop c k \<or> inherits js c k)"
  by (cases c) (auto simp: throwEngine_def)

lemma absent_regular:
  "has_prop js c k = Inr False \<Longrightarrow> is_object c \<or> is_array c \<and> k \<noteq> ''length''"
  by (cases c) (auto simp: throwEngine_def)

lemma set_prop_absent:
  "has_prop js c k = Inr False \<Longrightarrow> set_prop js c k v = Inr (put_back c k v)"
  by (cases c) (auto simp: throwEngine_def proto_setter_def split: option.splits)

lemma set_prop_kind:
  "set_prop js c k v = Inr c' \<Longrightarrow> (is_array c' \<longleftrightarrow> is_array c) \<and> (is_object c' \<longleftrightarrow> is_object c)"
  by (cases c) (auto simp: throwEngine_def split: option.splits if_splits sum.splits)

lemma set_prop_not_Hole: "set_prop js c k v = Inr c' \<Longrightarrow> c' \<noteq> Hole"
  by (cases c) (auto simp: throwEngine_def split: option.splits if_splits sum.splits)

lemma set_path_not_Hole: "set_path js c q v = Inr r \<Longrightarrow> r \<noteq> Hole"
proof (cases q)
  case Nil
  then show "set_path js c q v = Inr r \<Longrightarrow> r \<noteq> Hole"
    by (auto dest: set_prop_not_Hole)
next
  case (Cons k q')
  show "set_path js c q v = Inr r \<Longrightarrow> r \<noteq> Hole"
  proof (cases q')
    case Nil
    with Cons show "set_path js c q v = Inr r \<Longrightarrow> r \<noteq> Hole"
      by (auto dest: set_prop_not_Hole)
  next
    case (Cons n qs)
    assume "set_path js c q v = Inr r"
    with Cons \<open>q = k # q'\<close> obtain present c' child where
      "has_prop js c k = Inr present"
      "(if present then Inr c else set_prop js c k (new_container js n)) = Inr c'"
      "r = put_back c' k child"
      by (auto simp: andThen_Inr_iff via_inherited_def split: if_splits option.splits)
    then have "is_array r \<or> is_object r"
      using has_prop_container [of js c k present] set_prop_kind [of js c k "new_container js n" c']
      by (auto split: if_splits)
    then show "r \<noteq> Hole"
      by auto
  qed
qed

lemma set_path_present:
  "own_prop c k \<Longrightarrow>
     set_path js c (k # n # qs) v =
       andThen (set_path js (get_prop js c k) (n # qs) v) (\<lambda>child. Inr (put_back c k child))"
  by (simp add: has_prop_own)

lemma new_container_not_Hole: "new_container js n \<noteq> Hole"
  by (simp add: new_container_def)

lemma set_path_absent:
  assumes "has_prop js c k = Inr False"
  shows "set_path js c (k # n # qs) v =
       andThen (set_path js (new_container js n) (n # qs) v) (\<lambda>child. Inr (put_back c k child))"
  using assms set_prop_absent [OF assms, of "new_container js n"]
    get_put_back [OF absent_regular [OF assms] new_container_not_Hole, where js = js and n1 = n]
  by (simp add: put_back_twice)

subsection \<open>Entries under a common key\<close>

lemma andThen_same: "(\<And>a. m = Inr a \<Longrightarrow> f a = g a) \<Longrightarrow> andThen m f = andThen m g"
  by (cases m) auto

lemma andThen_Inr [simp]: "andThen m Inr = m"
  by (cases m) auto

lemma set_paths_Nil_fun [simp]: "set_paths js [] = Inr"
  by (rule ext) simp

lemma set_paths_append:
  "set_paths js (a @ b) c = andThen (set_paths js a c) (set_paths js b)"
proof (induction a arbitrary: c)
  case Nil
  then show ?case by simp
next
  case (Cons p a)
  obtain q e where p: "p = (q, e)" by (cases p)
  have "set_paths js ((p # a) @ b) c =
          andThen (set_path js c q (processValue js e)) (set_paths js (a @ b))"
    by (simp add: p)
  also have "\<dots> = andThen (set_path js c q (processValue js e))
                      (\<lambda>c'. andThen (set_paths js a c') (set_paths js b))"
    by (rule andThen_same) (rule Cons.IH)
  also have "\<dots> = andThen (set_paths js (p # a) c) (set_paths js b)"
    by (simp add: p andThen_assoc)
  finally show ?case .
qed

lemma set_paths_descend:
  assumes "fst p \<noteq> []" "list_all (\<lambda>p. fst p \<noteq> []) es" "own_prop c k"
      and "is_object c \<or> is_array c \<and> k \<noteq> ''length''"
  shows "set_paths js (map (apfst ((#) k)) (p # es)) c =
           andThen (set_paths js (p # es) (get_prop js c k)) (\<lambda>d. Inr (put_back c k d))"
  using assms
proof (induction es arbitrary: p c)
  case Nil
  obtain q e where p: "p = (q, e)" by (cases p)
  with Nil obtain n qs where q: "q = n # qs" by (cases q) auto
  show ?case
    using Nil p q by (simp add: andThen_assoc has_prop_own)
next
  case (Cons p' es)
  obtain q e where p: "p = (q, e)" by (cases p)
  with Cons.prems obtain n qs where q: "q = n # qs" by (cases q) auto
  let ?v = "processValue js e"
  show ?case
  proof (cases "set_path js (get_prop js c k) (n # qs) ?v")
    case (Inl err)
    with Cons.prems p q show ?thesis by (simp add: has_prop_own)
  next
    case (Inr child)
    let ?c' = "put_back c k child"
    have nh: "child \<noteq> Hole"
      by (rule set_path_not_Hole [OF Inr])
    have own: "own_prop ?c' k"
      by (rule own_put_back [OF Cons.prems(4) nh])
    have reg: "is_object ?c' \<or> is_array ?c' \<and> k \<noteq> ''length''"
      using Cons.prems(4) by simp
    have "set_paths js (map (apfst ((#) k)) (p # p' # es)) c =
            set_paths js (map (apfst ((#) k)) (p' # es)) ?c'"
      using Cons.prems(3) p q Inr by (simp add: has_prop_own)
    also have "\<dots> = andThen (set_paths js (p' # es) (get_prop js ?c' k)) (\<lambda>d. Inr (put_back ?c' k d))"
      using Cons.prems(2) own reg by (intro Cons.IH) simp_all
    also have "\<dots> = andThen (set_paths js (p' # es) child) (\<lambda>d. Inr (put_back c k d))"
      using get_put_back [OF Cons.prems(4) nh] by (simp add: put_back_twice)
    also have "\<dots> = andThen (set_paths js (p # p' # es) (get_prop js c k)) (\<lambda>d. Inr (put_back c k d))"
      using p q Inr by simp
    finally show ?thesis .
  qed
qed

lemma set_paths_create:
  assumes "list_all (\<lambda>p. fst p \<noteq> []) es" "has_prop js c k = Inr False"
  shows "set_paths js (map (apfst ((#) k)) ((n # qs, e) # es)) c =
           andThen (set_paths js ((n # qs, e) # es) (new_container js n)) (\<lambda>d. Inr (put_back c k d))"
proof -
  let ?c1 = "put_back c k (new_container js n)"
  note reg = absent_regular [OF assms(2)]
  have own: "own_prop ?c1 k"
    by (rule own_put_back [OF reg new_container_not_Hole])
  have reg1: "is_object ?c1 \<or> is_array ?c1 \<and> k \<noteq> ''length''"
    using reg by simp
  have first: "set_path js c (k # n # qs) v = set_path js ?c1 (k # n # qs) v" for v
    using set_path_absent [OF assms(2), of n qs v] set_path_present [OF own, of js n qs v]
      get_put_back [OF reg new_container_not_Hole, where js = js and n1 = n]
    by (simp add: put_back_twice)
  have "set_paths js (map (apfst ((#) k)) ((n # qs, e) # es)) c =
          set_paths js (map (apfst ((#) k)) ((n # qs, e) # es)) ?c1"
    using first by simp
  also have "\<dots> = andThen (set_paths js ((n # qs, e) # es) (get_prop js ?c1 k))
                      (\<lambda>d. Inr (put_back ?c1 k d))"
    using assms(1) own reg1 by (intro set_paths_descend) simp_all
  finally show ?thesis
    using get_put_back [OF reg new_container_not_Hole, where js = js and n1 = n] by (simp add: put_back_twice)
qed

subsection \<open>Rebuilding a value from its paths\<close>

lemma nat_str_0: "nat_str 0 = ''0''"
  by (subst nat_str.simps) (simp add: digit_char_def)

lemma paths_items_nonempty_paths: "list_all (\<lambda>p. fst p \<noteq> []) (paths_items js xs i)"
  by (induction xs arbitrary: i) (auto simp: list_all_iff)

lemma paths_items_index:
  "list_all (\<lambda>p. \<exists>n qs. fst p = nat_str n # qs) (paths_items js xs i)"
  by (induction xs arbitrary: i) (auto simp: list_all_iff)

lemma paths_fields_nonempty_paths: "list_all (\<lambda>p. fst p \<noteq> []) (paths_fields js kvs)"
  by (induction kvs) (fastforce simp: list_all_iff)+

lemma paths_items_member:
  "x \<in> set xs \<Longrightarrow> x \<noteq> Hole \<Longrightarrow> paths js x \<noteq> [] \<Longrightarrow> paths_items js xs i \<noteq> []"
  by (induction xs arbitrary: i) auto

lemma paths_nonempty: "codec_safe js v \<Longrightarrow> paths js v \<noteq> []"
proof (induction v)
  case (Arr xs ps)
  then have "last xs \<in> set xs" "last xs \<noteq> Hole" "codec_safe js (last xs)"
    by (auto simp: list_all_iff)
  with Arr.IH(1) have "paths_items js xs 0 \<noteq> []"
    by (intro paths_items_member [of "last xs"]) auto
  then show ?case by simp
next
  case (Obj kvs)
  then obtain k v kvs' where kvs: "kvs = (k, v) # kvs'" "codec_safe js v"
    by (cases kvs) auto
  then have "v \<in> Basic_BNFs.snds (k, v)" "(k, v) \<in> set kvs"
    by simp_all
  with Obj.IH kvs(2) have "paths js v \<noteq> []"
    by blast
  with kvs show ?case by simp
qed simp_all

text \<open>
  The first path of a safe array starts at an index, that of a safe object at
  its first key, which is not numeric.
\<close>

lemma paths_Arr_shape:
  assumes "codec_safe js (Arr xs ps)"
  shows "\<exists>n qs e es. paths js (Arr xs ps) = (nat_str n # qs, e) # es \<and>
           list_all (\<lambda>p. fst p \<noteq> []) es"
proof -
  from paths_nonempty [OF assms] obtain q e es where r: "paths_items js xs 0 = (q, e) # es"
    by (cases "paths_items js xs 0") auto
  from paths_items_index [of js xs 0] r obtain n qs where "q = nat_str n # qs"
    by auto
  moreover from paths_items_nonempty_paths [of js xs 0] r have "list_all (\<lambda>p. fst p \<noteq> []) es"
    by simp
  ultimately show ?thesis
    using r by auto
qed

lemma paths_Obj_shape:
  assumes "codec_safe js (Obj kvs)"
  shows "\<exists>k qs e es. paths js (Obj kvs) = (k # qs, e) # es \<and> toNumber js k = None \<and>
           list_all (\<lambda>p. fst p \<noteq> []) es"
proof -
  from assms obtain k v kvs' where kvs: "kvs = (k, v) # kvs'" "codec_safe js v"
      "toNumber js k = None"
    by (cases kvs) auto
  from paths_nonempty [OF kvs(2)] obtain q e r where r: "paths js v = (q, e) # r"
    by (cases "paths js v") auto
  have "list_all (\<lambda>p. fst p \<noteq> []) (paths_fields js kvs)"
    by (rule paths_fields_nonempty_paths)
  with kvs r show ?thesis
    by simp
qed

lemma set_paths_child:
  assumes numeric: "\<And>i. toNumber js (nat_str i) \<noteq> None"
      and absent: "is_array w \<or> is_object w \<Longrightarrow> has_prop js c k = Inr False"
      and assign: "\<And>v. \<not> (is_array w \<or> is_object w) \<Longrightarrow> set_prop js c k v = Inr (put_back c k v)"
      and safe: "codec_safe js w"
      and ih: "rebuilds js w"
  shows "set_paths js (map (apfst ((#) k)) (paths js w)) c = Inr (put_back c k (decoded js w))"
proof (cases w)
  case (Arr xs ps)
  with safe obtain n qs e es where sh: "paths js w = (nat_str n # qs, e) # es"
      "list_all (\<lambda>p. fst p \<noteq> []) es"
    using paths_Arr_shape by blast
  have "new_container js (nat_str n) = Arr [] []"
    using numeric by (simp add: new_container_def isNextKeyNumeric_def)
  with ih safe Arr sh show ?thesis
    using set_paths_create [OF sh(2) absent, of "nat_str n" qs e]
    by (simp add: rebuilds_def)
next
  case (Obj kvs)
  with safe obtain k0 qs e es where sh: "paths js w = (k0 # qs, e) # es" "toNumber js k0 = None"
      "list_all (\<lambda>p. fst p \<noteq> []) es"
    using paths_Obj_shape by blast
  have "new_container js k0 = Obj []"
    using sh(2) by (simp add: new_container_def isNextKeyNumeric_def)
  with ih safe Obj sh show ?thesis
    using set_paths_create [OF sh(3) absent, of k0 qs e]
    by (simp add: rebuilds_def)
qed (use safe assign in simp_all)

lemma replicate_Hole_end: "replicate h x @ x # ys = x # replicate h x @ ys"
  by (induction h) simp_all

lemma rebuild_items:
  assumes numeric: "\<And>i. toNumber js (nat_str i) \<noteq> None"
      and noidx: "\<And>i. \<not> arrayProto js (nat_str i)"
      and ih: "\<And>x. x \<in> set xs \<Longrightarrow> rebuilds js x"
      and safe: "list_all (\<lambda>x. x = Hole \<or> codec_safe js x) xs"
      and ends: "if xs = [] then h = 0 else last xs \<noteq> Hole"
      and len: "length ys + h + length xs \<le> 4294967295"
  shows "set_paths js (paths_items js xs (length ys + h)) (Arr ys []) =
           Inr (Arr (ys @ replicate h Hole @ map (decoded js) xs) [])"
  using ih safe ends len
proof (induction xs arbitrary: ys h)
  case Nil
  then show ?case by simp
next
  case (Cons x xs)
  show ?case
  proof (cases "x = Hole")
    case True
    with Cons.prems(3) have ne: "xs \<noteq> []"
      by auto
    have "set_paths js (paths_items js xs (length ys + Suc h)) (Arr ys []) =
            Inr (Arr (ys @ replicate (Suc h) Hole @ map (decoded js) xs) [])"
      using Cons.prems ne by (intro Cons.IH) (simp_all split: if_splits)
    with True show ?thesis
      by (simp add: replicate_Hole_end)
  next
    case nh: False
    let ?i = "length ys + h"
    let ?d = "decoded js x"
    from Cons.prems(2) nh have sx: "codec_safe js x"
      by simp
    have idx: "array_index (nat_str ?i) = Some ?i"
      using Cons.prems(4) by (intro array_index_nat_str) simp
    then have absent: "has_prop js (Arr ys []) (nat_str ?i) = Inr False"
      using noidx by simp
    have "set_paths js (map (apfst ((#) (nat_str ?i))) (paths js x)) (Arr ys []) =
            Inr (put_back (Arr ys []) (nat_str ?i) ?d)"
      using Cons.prems(1) sx idx by (intro set_paths_child [OF numeric absent]) simp_all
    then have step: "set_paths js (map (apfst ((#) (nat_str ?i))) (paths js x)) (Arr ys []) =
        Inr (Arr (ys @ replicate h Hole @ [?d]) [])"
      using idx by (simp add: arr_set_def)
    have "set_paths js (paths_items js xs (length (ys @ replicate h Hole @ [?d]) + 0))
            (Arr (ys @ replicate h Hole @ [?d]) []) =
          Inr (Arr ((ys @ replicate h Hole @ [?d]) @ replicate 0 Hole @ map (decoded js) xs) [])"
      using Cons.prems by (intro Cons.IH) (simp_all split: if_splits)
    with step nh show ?thesis
      by (simp add: set_paths_append)
  qed
qed

lemma rebuild_fields:
  assumes numeric: "\<And>i. toNumber js (nat_str i) \<noteq> None"
      and ih: "\<And>p. p \<in> set kvs \<Longrightarrow> rebuilds js (snd p)"
      and safe: "list_all (\<lambda>p. key_fits js (fst p) (snd p) \<and> codec_safe js (snd p)) kvs"
      and dist: "distinct (map fst kvs)"
      and fresh: "fst ` set kvs \<inter> fst ` set done = {}"
      and ord: "js_ordered (map fst done @ map fst kvs)"
  shows "set_paths js (paths_fields js kvs) (Obj done) =
           Inr (Obj (done @ map (\<lambda>p. (fst p, decoded js (snd p))) kvs))"
  using ih safe dist fresh ord
proof (induction kvs arbitrary: "done")
  case Nil
  then show ?case by simp
next
  case (Cons p kvs)
  obtain k v where p: "p = (k, v)" by (cases p)
  from Cons.prems(2) p have pk: "key_fits js k v" and sv: "codec_safe js v"
    by simp_all
  from Cons.prems(4) p have new: "k \<notin> fst ` set done"
    by auto
  have absent: "has_prop js (Obj done) k = Inr False" if "is_array v \<or> is_object v"
    using that pk new by (simp add: key_fits_def)
  have assign: "set_prop js (Obj done) k x = Inr (put_back (Obj done) k x)"
    if "\<not> (is_array v \<or> is_object v)" for x
    using that pk new by (auto simp: key_fits_def proto_setter_def)
  have "list_all (\<lambda>k'. \<not> key_precedes k k') (map fst done)"
    using Cons.prems(5) p by (intro js_ordered_mid [of _ _ "map fst kvs"]) simp
  then have put: "put_back (Obj done) k x = Obj (done @ [(k, x)])" for x
    using new by (simp add: put_prop_append)
  have "set_paths js (map (apfst ((#) k)) (paths js v)) (Obj done) =
          Inr (put_back (Obj done) k (decoded js v))"
    using Cons.prems(1) [of p] p sv absent assign by (intro set_paths_child [OF numeric]) simp_all
  then have step: "set_paths js (map (apfst ((#) k)) (paths js v)) (Obj done) =
      Inr (Obj (done @ [(k, decoded js v)]))"
    by (simp only: put)
  have "set_paths js (paths_fields js kvs) (Obj (done @ [(k, decoded js v)])) =
          Inr (Obj ((done @ [(k, decoded js v)]) @ map (\<lambda>p. (fst p, decoded js (snd p))) kvs))"
    using Cons.prems p by (intro Cons.IH) auto
  with step p show ?case
    by (simp add: set_paths_append)
qed

lemma rebuilds_all:
  assumes numeric: "\<And>i. toNumber js (nat_str i) \<noteq> None"
      and noidx: "\<And>i. \<not> arrayProto js (nat_str i)"
  shows "rebuilds js w"
proof (induction w)
  case (Arr xs ps)
  show ?case
    unfolding rebuilds_def
  proof (intro impI conjI)
    assume safe: "codec_safe js (Arr xs ps)"
    have "set_paths js (paths_items js xs (length ([] :: 'a jsval list) + 0)) (Arr [] []) =
            Inr (Arr ([] @ replicate 0 Hole @ map (decoded js) xs) [])"
      using Arr.IH(1) safe by (intro rebuild_items [OF numeric noidx]) simp_all
    with safe show "set_paths js (paths js (Arr xs ps)) (Arr [] []) = Inr (decoded js (Arr xs ps))"
      by simp
  qed simp
next
  case (Obj kvs)
  have ih: "rebuilds js (snd p)" if "p \<in> set kvs" for p
    using Obj.IH [of p "snd p"] that by (cases p) simp
  show ?case
    unfolding rebuilds_def
  proof (intro impI conjI)
    assume safe: "codec_safe js (Obj kvs)"
    have "set_paths js (paths_fields js kvs) (Obj []) =
            Inr (Obj ([] @ map (\<lambda>p. (fst p, decoded js (snd p))) kvs))"
      using ih safe by (intro rebuild_fields [OF numeric]) simp_all
    then show "set_paths js (paths js (Obj kvs)) (Obj []) = Inr (decoded js (Obj kvs))"
      by simp
  qed simp
qed (simp_all add: rebuilds_def)

lemma append_roots_fields: "append_roots js kvs prefix = append_fields js kvs prefix"
  by (induction kvs) auto

lemma formData_forEach_paths:
  "formData_forEach js fd c = set_paths js (map (apfst path_keys) fd) c"
proof (induction fd arbitrary: c)
  case Nil
  then show ?case by simp
next
  case (Cons p fd)
  obtain k e where p: "p = (k, e)" by (cases p)
  have "formData_forEach js (p # fd) c =
          andThen (setNestedValue js c k e) (\<lambda>c'. set_paths js (map (apfst path_keys) fd) c')"
    unfolding p by (simp add: Cons.IH [abs_def])
  then show ?case
    by (simp add: p setNestedValue_def)
qed

lemma map_apfst_Nil [simp]: "map (apfst ((@) [])) es = es"
  by (induction es) auto

lemma sample_numeric: "\<forall>i. toNumber sample_js (nat_str i) \<noteq> None"
proof
  fix i
  obtain c r where cr: "nat_str i = c # r"
    using nat_str_nonempty [of i] by (cases "nat_str i") auto
  with nat_str_digits [of i] have "is_digit c"
    by simp
  then have "c \<noteq> CHR ''-''" "c \<noteq> CHR ''+''"
    by (auto simp: is_digit_def)
  with cr parse_nat_nat_str [of i] show "toNumber sample_js (nat_str i) \<noteq> None"
    by (simp add: sample_Number_def)
qed

lemma sample_no_index: "\<forall>i. \<not> arrayProto sample_js (nat_str i)"
proof
  fix i
  show "\<not> arrayProto sample_js (nat_str i)"
    using nat_str_digits [of i]
    by (auto simp: object_prototype_names_def array_prototype_names_def is_digit_def)
qed

text \<open>
  Claim C1, as amended.  Let \<open>v\<close> be a mapping that holds only scalars,
  mappings and sequences (no dates, no binary attachments), and in which

  \<^item> every key is not empty, holds no dot or bracket and no surrogate outside
    a pair, and is not an inherited \<open>__proto__\<close>; the key of a nested mapping
    or sequence names no member that plain objects inherit;
  \<^item> every nested mapping or sequence is not empty;
  \<^item> a nested mapping has no key \<open>constructor\<close>, and its first key is not
    numeric;
  \<^item> a sequence does not end with a hole and has no further named property.

  (As every object and array of JavaScript, a mapping has distinct keys,
  listed in the order of \<open>Object.keys\<close>, and the length of a sequence is at
  most \<open>2^32 - 1\<close>.)

  Then decoding the encoding of \<open>v\<close> gives the tree of \<open>v\<close> with each leaf replaced
  by what the decoder infers from the string written for it: null, undefined
  and the empty string become null; any other string goes through the type
  inference of the decoder, after its surrogates outside a pair have become
  U+FFFD (so a scalar value string that matches no pattern is unchanged); a
  boolean is unchanged; a number is unchanged when \<open>Number\<close> reads its printed
  form back; NaN becomes the string \<open>NaN\<close>.  What the round trip assumes of the
  runtime is that \<open>Number\<close> reads the decimal numeral of an index as a number
  and that arrays inherit no member named by an index.
\<close>

theorem decode_encode:
  assumes "\<forall>i. toNumber js (nat_str i) \<noteq> None" and "\<forall>i. \<not> arrayProto js (nat_str i)"
      and "codec_root js v"
  shows "andThen (objectToFormData js v) (formDataToObject js) = Inr (decoded js v) \<and>
         decoded js Null = Null \<and> decoded js Undefined = Null \<and> decoded js (Str []) = Null \<and>
         decoded js (Str s) = processValue js (EStr (toUSVString s)) \<and>
         (toUSVString s = s \<and> \<not> matches_iso_date s \<and> toNumber js s = None \<and>
          s \<noteq> ''true'' \<and> s \<noteq> ''false'' \<and> s \<noteq> [] \<longrightarrow> decoded js (Str s) = Str s) \<and>
         (toNumber js ''true'' = None \<and> toNumber js ''false'' = None \<longrightarrow> decoded js (Bool b) = Bool b) \<and>
         (toUSVString (numToString js n) = numToString js n \<and>
          toNumber js (numToString js n) = Some n \<and> numToString js n \<noteq> [] \<and>
          \<not> matches_iso_date (numToString js n) \<longrightarrow> decoded js (Num n) = Num n) \<and>
         (toNumber js ''NaN'' = None \<longrightarrow> decoded js NaN = Str ''NaN'')"
proof -
  from assms(3) obtain kvs where v: "v = Obj kvs" and dist: "distinct (map fst kvs)"
    and ord: "js_ordered (map fst kvs)"
    and safe: "list_all (\<lambda>p. key_fits js (fst p) (snd p) \<and> codec_safe js (snd p)) kvs"
    by (cases v) (auto simp: codec_root_def)
  from encoder_paths(3) [of js kvs "[]"] safe obtain es where
    es: "append_fields js kvs [] = Inr es" "map (apfst path_keys) es = paths_fields js kvs"
    by (auto simp: path_keys_Nil)
  have all: "rebuilds js w" for w
    using assms(1,2) by (intro rebuilds_all) simp_all
  have "set_paths js (paths_fields js kvs) (Obj []) =
          Inr (Obj ([] @ map (\<lambda>p. (fst p, decoded js (snd p))) kvs))"
    using safe dist ord all assms(1) by (intro rebuild_fields) simp_all
  with es v have main: "andThen (objectToFormData js v) (formDataToObject js) = Inr (decoded js v)"
    by (simp add: objectToFormData_def objectToFormData_prefix_def append_roots_fields
        formDataToObject_def formData_forEach_paths)
  have leaves: "decoded js Null = Null" "decoded js Undefined = Null" "decoded js (Str []) = Null"
    "decoded js (Str s) = processValue js (EStr (toUSVString s))"
    by (simp_all add: processValue_def matches_iso_date_def iso_date_pattern_def)
  have strs: "decoded js (Str s) = Str s"
    if "toUSVString s = s \<and> \<not> matches_iso_date s \<and> toNumber js s = None \<and>
          s \<noteq> ''true'' \<and> s \<noteq> ''false'' \<and> s \<noteq> []"
    using that by (simp add: processValue_def)
  have bools: "decoded js (Bool b) = Bool b"
    if "toNumber js ''true'' = None \<and> toNumber js ''false'' = None"
    using that
    by (cases b) (simp_all add: processValue_def matches_iso_date_def iso_date_pattern_def is_digit_def)
  have nums: "decoded js (Num n) = Num n"
    if "toUSVString (numToString js n) = numToString js n \<and>
          toNumber js (numToString js n) = Some n \<and> numToString js n \<noteq> [] \<and>
          \<not> matches_iso_date (numToString js n)"
    using that by (simp add: processValue_def)
  have nan: "decoded js NaN = Str ''NaN''" if "toNumber js ''NaN'' = None"
    using that
    by (simp add: processValue_def matches_iso_date_def iso_date_pattern_def is_digit_def)
  from main leaves strs bools nums nan show ?thesis
    by blast
qed

lemmas sample_eval =
  sample_Number_def sample_String_def parse_nat_def is_digit_def is_delim_def array_index_def
  object_prototype_names_def array_prototype_names_def key_fits_def segment_def
  matches_iso_date_def iso_date_pattern_def processValue_def path_keys_def
  objectToFormData_def objectToFormData_prefix_def formDataToObject_def setNestedValue_def
  new_container_def isNextKeyNumeric_def key_precedes_def arr_set_def digit_char_def
  append_entry_def proto_setter_def via_inherited_def

lemma example_root:
  "codec_root sample_js
     (Obj [(''0'', Str ''zero''),
           (''user'', Obj [(''name'', Str ''John''), (''profile'', Obj [(''age'', Num 30)])]),
           (''tags'', Arr [Str ''react'', Hole, Str ''ts''] []),
           (''toString'', Bool True)])"
  by (simp add: codec_root_def sample_eval)

lemma example_decoded:
  "decoded sample_js
     (Obj [(''0'', Str ''zero''),
           (''user'', Obj [(''name'', Str ''John''), (''profile'', Obj [(''age'', Num 30)])]),
           (''tags'', Arr [Str ''react'', Hole, Str ''ts''] []),
           (''toString'', Bool True)])
   = Obj [(''0'', Str ''zero''),
           (''user'', Obj [(''name'', Str ''John''), (''profile'', Obj [(''age'', Num 30)])]),
           (''tags'', Arr [Str ''react'', Hole, Str ''ts''] []),
           (''toString'', Bool True)]"
  by (simp add: sample_eval nat_str.simps)

theorem decode_encode_witness:
  "andThen (objectToFormData sample_js
     (Obj [(''0'', Str ''zero''),
           (''user'', Obj [(''name'', Str ''John''), (''profile'', Obj [(''age'', Num 30)])]),
           (''tags'', Arr [Str ''react'', Hole, Str ''ts''] []),
           (''toString'', Bool True)])) (formDataToObject sample_js)
   = Inr (Obj [(''0'', Str ''zero''),
           (''user'', Obj [(''name'', Str ''John''), (''profile'', Obj [(''age'', Num 30)])]),
           (''tags'', Arr [Str ''react'', Hole, Str ''ts''] []),
           (''toString'', Bool True)])"
  using decode_encode [OF sample_numeric sample_no_index example_root]
  by (simp only: example_decoded)

text \<open>
  The claim as stated fails on \<open>{a: ""}\<close>, which comes back as \<open>{a: null}\<close> although
  the empty string matches none of the three patterns, and on
  \<open>{a: "x", b: []}\<close>, which comes back as \<open>{a: "x"}\<close>: an empty array or mapping
  writes no entry.  It fails on keys that do not say where the leaf is:
  \<open>{"a.b": "x"}\<close> comes back as \<open>{a: {b: "x"}}\<close>, \<open>{"": "x"}\<close> as \<open>{undefined: "x"}\<close>,
  \<open>{a: {"0": "x"}}\<close> as \<open>{a: ["x"]}\<close>, and \<open>{a: {constructor: "x"}}\<close> as
  \<open>{a: "[object Object]"}\<close>.  An own key \<open>__proto__\<close> is lost, and under the key
  \<open>toString\<close> a mapping is not rebuilt: the decoder walks into the inherited
  method and writes there.  A surrogate outside a pair comes back as U+FFFD,
  in a key and in a leaf.  An array loses its named properties and a hole at
  its end, and an array with an own property \<open>forEach\<close> is not encoded at all.
  An array at the root comes back as a mapping.
\<close>

theorem decode_encode_counterexample:
  "andThen (objectToFormData sample_js (Obj [(''a'', Str [])])) (formDataToObject sample_js)
     = Inr (Obj [(''a'', Null)]) \<and>
   andThen (objectToFormData sample_js (Obj [(''a'', Str ''x''), (''b'', Arr [] [])]))
       (formDataToObject sample_js)
     = Inr (Obj [(''a'', Str ''x'')]) \<and>
   andThen (objectToFormData sample_js (Obj [(''a.b'', Str ''x'')])) (formDataToObject sample_js)
     = Inr (Obj [(''a'', Obj [(''b'', Str ''x'')])]) \<and>
   andThen (objectToFormData sample_js (Obj [([], Str ''x'')])) (formDataToObject sample_js)
     = Inr (Obj [(''undefined'', Str ''x'')]) \<and>
   andThen (objectToFormData sample_js (Obj [(''a'', Obj [(''0'', Str ''x'')])]))
       (formDataToObject sample_js)
     = Inr (Obj [(''a'', Arr [Str ''x''] [])]) \<and>
   andThen (objectToFormData sample_js (Obj [(''a'', Obj [(''constructor'', Str ''x'')])]))
       (formDataToObject sample_js)
     = Inr (Obj [(''a'', Str ''[object Object]'')]) \<and>
   andThen (objectToFormData sample_js (Obj [(''__proto__'', Str ''x'')])) (formDataToObject sample_js)
     = Inr (Obj []) \<and>
   andThen (objectToFormData sample_js (Obj [(''toString'', Obj [(''a'', Str ''x'')])]))
       (formDataToObject sample_js)
     = Inl Unmodelled \<and>
   andThen (objectToFormData sample_js
              (Obj [([CHR 0xED, CHR 0xA0, CHR 0x80], Str [CHR 0xED, CHR 0xA0, CHR 0x80])]))
       (formDataToObject sample_js)
     = Inr (Obj [([CHR 0xEF, CHR 0xBF, CHR 0xBD], Str [CHR 0xEF, CHR 0xBF, CHR 0xBD])]) \<and>
   andThen (objectToFormData sample_js (Obj [(''a'', Arr [Str ''x''] [(''p'', Str ''y'')])]))
       (formDataToObject sample_js)
     = Inr (Obj [(''a'', Arr [Str ''x''] [])]) \<and>
   andThen (objectToFormData sample_js (Obj [(''a'', Arr [Str ''x'', Hole] [])]))
       (formDataToObject sample_js)
     = Inr (Obj [(''a'', Arr [Str ''x''] [])]) \<and>
   objectToFormData sample_js (Obj [(''a'', Arr [Str ''x''] [(''forEach'', Str ''y'')])])
     = Inl (Throw (ErrorV ''TypeError'' ''type error'')) \<and>
   andThen (objectToFormData sample_js (Arr [Str ''x''] [])) (formDataToObject sample_js)
     = Inr (Obj [(''0'', Str ''x'')])"
  by (simp add: sample_eval nat_str.simps throwEngine_def engineError_def String_of_def)

section \<open>The containers of the decoder\<close>














section \<open>The response normalizer\<close>

text \<open>
  Claim C3.  The claim has a result with \<open>ok: false\<close> give a Failure that carries
  the provided message and error, and the documentation of the wrapper promises
  the same (``throws error with your message'').  The wrapper throws the
  provided error and its \<open>catch\<close> block reads the message off that error: the
  provided message is lost whenever the error has another one.
\<close>

theorem withFormTransform_drops_message:
  "withFormTransform js
     (\<lambda>parsedData. Returns (Obj [(''ok'', Bool False), (''message'', Str ''User not found''),
                                (''error'', ErrorV ''Error'' ''ENOENT'')])) []
   = Resolved (Failure (Str ''ENOENT'') (ErrorV ''Error'' ''ENOENT''))"
  by (simp add: withFormTransform_def formDataToObject_empty await_action_def
      classify_def settle_def throw_def orElse_def catch_response_def)

lemma engineError_is_Error [simp]: "is_Error (engineError js k)"
  by (simp add: engineError_def)














text \<open>
  The \<open>catch\<close> block converts a thrown value that is no \<open>Error\<close> with \<open>String\<close>,
  unguarded: where that conversion throws, the wrapper rejects.
\<close>

lemma withFormTransform_can_reject:
  "withFormTransform js (\<lambda>parsedData. Throws (Obj [(''toString'', Null)])) [] =
     Rejected (engineError js TypeError)"
  by (simp add: withFormTransform_def formDataToObject_empty await_action_def
      settle_def throw_def catch_response_def String_of_def)






section \<open>The sanitizer\<close>

lemma sanitize_fixed:
  "(\<forall>y. sanitizeForTransport js x = Inr y \<longrightarrow> sanitizeForTransport js y = Inr y)"
  "(\<forall>ys. sanitize_items js xs = Inr ys \<longrightarrow> sanitize_items js ys = Inr ys)"
  "(\<forall>kvs'. sanitize_fields js kvs = Inr kvs' \<longrightarrow>
       sanitize_fields js kvs' = Inr kvs' \<and> fst ` set kvs' \<subseteq> fst ` set kvs \<and>
       \<not> (''__proto__'' \<in> fst ` set kvs' \<and> objectProto js ''__proto__''))"
proof (induction js x and js xs and js kvs
       rule: sanitizeForTransport_sanitize_items_sanitize_fields.induct)
  case (3 js xs ps)
  then show ?case by (auto simp: andThen_Inr_iff)
next
  case (4 js d)
  then show ?case by (cases d) auto
next
  case (7 js kvs)
  show ?case
  proof (intro allI impI)
    fix y assume a: "sanitizeForTransport js (Obj kvs) = Inr y"
    show "sanitizeForTransport js y = Inr y"
    proof (cases "''constructor'' \<in> fst ` set kvs")
      case True
      with a have "y = Obj kvs" by simp
      with True show ?thesis by simp
    next
      case False
      with a obtain kvs' where k: "sanitize_fields js kvs = Inr kvs'" "y = Obj kvs'"
        by (auto simp: andThen_Inr_iff)
      from 7 False k have f: "sanitize_fields js kvs' = Inr kvs'" "fst ` set kvs' \<subseteq> fst ` set kvs"
        by auto
      with False k(2) show ?thesis by auto
    qed
  qed
next
  case (10 js x xs)
  then show ?case by (auto simp: andThen_Inr_iff)
next
  case (12 js key v kvs)
  show ?case
  proof (intro allI impI)
    fix kvs' assume a: "sanitize_fields js ((key, v) # kvs) = Inr kvs'"
    then obtain y ys where y: "sanitizeForTransport js v = Inr y"
        and ys: "sanitize_fields js kvs = Inr ys"
        and kvs': "kvs' = (if key = ''__proto__'' \<and> objectProto js key then ys else (key, y) # ys)"
      by (auto simp: andThen_Inr_iff)
    from 12(1) y have fy: "sanitizeForTransport js y = Inr y"
      by simp
    from 12(2) ys have fys: "sanitize_fields js ys = Inr ys"
        "fst ` set ys \<subseteq> fst ` set kvs"
        "\<not> (''__proto__'' \<in> fst ` set ys \<and> objectProto js ''__proto__'')"
      by auto
    from fy fys kvs' show "sanitize_fields js kvs' = Inr kvs' \<and>
        fst ` set kvs' \<subseteq> fst ` set ((key, v) # kvs) \<and>
        \<not> (''__proto__'' \<in> fst ` set kvs' \<and> objectProto js ''__proto__'')"
      by auto
  qed
qed auto

text \<open>
  Claim C9.  \<open>sanitizeForTransport\<close> is idempotent: sanitizing the result of
  sanitizing \<open>x\<close> gives the result of sanitizing \<open>x\<close>.  (When sanitizing \<open>x\<close> raises
  an exception, as on an Invalid Date, there is no result to sanitize again,
  and both sides are that exception.)
\<close>

theorem sanitizeForTransport_idempotent:
  "andThen (sanitizeForTransport js x) (sanitizeForTransport js) = sanitizeForTransport js x"
  using sanitize_fixed(1) [of js x] by (cases "sanitizeForTransport js x") auto

section \<open>The request orchestrator\<close>



text \<open>
  Claim C8, as amended.  When an execute whose signal is not aborted receives a
  Failure, the stored data are left untouched; the value stored as the error
  is the failure message, or \<open>Operation failed\<close> when that message is empty
  (falsy); the error callback, when there is one, is called with that value,
  and the value stays stored when the callback returns normally.
\<close>

theorem execute_resume_failure:
  assumes "sig \<notin> aborted s"
  shows "data (execute_resume js opts sig (Inr (Failure m e)) s) = data s \<and>
         (onError opts = None \<longrightarrow>
            error (execute_resume js opts sig (Inr (Failure m e)) s)
              = (if truthy js m then m else Str ''Operation failed'') \<and>
            errorCalls (execute_resume js opts sig (Inr (Failure m e)) s) = errorCalls s) \<and>
         (\<forall>f. onError opts = Some f \<longrightarrow>
            (\<exists>more. errorCalls (execute_resume js opts sig (Inr (Failure m e)) s)
                = errorCalls s @ (if truthy js m then m else Str ''Operation failed'') # more) \<and>
            (f (if truthy js m then m else Str ''Operation failed'') = None \<longrightarrow>
               error (execute_resume js opts sig (Inr (Failure m e)) s)
                 = (if truthy js m then m else Str ''Operation failed'')))"
  using assms
  by (auto simp: execute_resume_def Let_def call_onError_def orElse_def execute_catch_def
      split: option.splits prod.splits)


lemma default_options_fields [simp]:
  "condition default_options = None" "cacheTime default_options = 0"
  "dedupingInterval default_options = 2000" "onSuccess default_options = None"
  "onError default_options = None"
  by (simp_all add: default_options_def)

lemma initial_session_fields [simp]:
  "loading initial_session = False" "error initial_session = Undefined"
  "data initial_session = Undefined" "lastRequestDataRef initial_session = None"
  "abortControllerRef initial_session = None" "lastRequestTimeRef initial_session = 0"
  "cacheTimeoutRef initial_session = None" "aborted initial_session = {}"
  "controllers initial_session = 0" "timers initial_session = {}"
  "timerCount initial_session = 0" "actionCalls initial_session = []"
  "successCalls initial_session = []" "errorCalls initial_session = []"
  by (simp_all add: initial_session_def)

theorem execute_resume_failure_witness:
  "data (execute_resume sample_js (default_options\<lparr>onError := Some (\<lambda>v. None)\<rparr>) 0
           (Inr (Failure (Str ''User not found'') (ErrorV ''Error'' ''User not found'')))
           (initial_session\<lparr>data := Str ''kept''\<rparr>)) = Str ''kept'' \<and>
   error (execute_resume sample_js (default_options\<lparr>onError := Some (\<lambda>v. None)\<rparr>) 0
           (Inr (Failure (Str ''User not found'') (ErrorV ''Error'' ''User not found'')))
           (initial_session\<lparr>data := Str ''kept''\<rparr>)) = Str ''User not found''"
  using execute_resume_failure [of 0 "initial_session\<lparr>data := Str ''kept''\<rparr>" sample_js
      "default_options\<lparr>onError := Some (\<lambda>v. None)\<rparr>" "Str ''User not found''"
      "ErrorV ''Error'' ''User not found''"]
  by simp

text \<open>
  The claim as stated fails for a Failure whose message is the empty string
  (what the wrapper makes of a thrown \<open>new Error()\<close>): the stored error is the
  fallback text.
\<close>

theorem execute_resume_failure_counterexample:
  "error (execute_resume sample_js default_options 0 (Inr (Failure (Str []) (ErrorV ''Error'' [])))
            initial_session) = Str ''Operation failed''"
  by (simp add: execute_resume_def Let_def call_onError_def orElse_def)

lemma execute_call_started:
  assumes "execute_call js opts seen now p s = Some (s', Some rq)"
  shows "loading s' = True" "lastRequestTimeRef s' = now" "condition opts \<noteq> Some False"
    "abortControllerRef s' = Some (signal rq)" "aborted s \<subseteq> aborted s'"
    "\<And>c. abortControllerRef s = Some c \<Longrightarrow> c \<in> aborted s'"
  using assms
  by (auto simp: execute_call_def Let_def abort_current_def
      split: if_splits option.splits in_flight.splits)

lemma execute_call_log:
  assumes "execute_call js opts seen now p s = Some (s', Some rq)"
  shows "actionCalls s' =
           actionCalls s @ (case flight rq of Invoked formData \<Rightarrow> [formData] | NotInvoked r \<Rightarrow> [])"
  using assms
  by (auto simp: execute_call_def Let_def abort_current_def
      split: if_splits option.splits in_flight.splits)

text \<open>
  Claim C6, as amended.  When \<open>execute\<close> has started a request at time \<open>t1\<close> and is
  called again, by the render that sees \<open>loading\<close>, less than \<open>dedupingInterval\<close>
  later, the second call starts nothing and calls no action: it returns after
  overwriting the remembered payload when it was given one, and changes nothing
  else.  The action was called once, by the first call, if the payload of that
  call could be encoded.
\<close>

theorem execute_dedup:
  assumes "execute_call js opts seen1 t1 p1 s0 = Some (s1, Some rq)"
      and "t2 - t1 < dedupingInterval opts"
  shows "execute_call js opts (loading s1) t2 p2 s1 =
           Some (s1\<lparr>lastRequestDataRef :=
                     (case p2 of None \<Rightarrow> lastRequestDataRef s1 | Some d \<Rightarrow> Some d)\<rparr>, None) \<and>
         actionCalls s1 =
           actionCalls s0 @ (case flight rq of Invoked formData \<Rightarrow> [formData] | NotInvoked r \<Rightarrow> [])"
proof
  show "execute_call js opts (loading s1) t2 p2 s1 =
           Some (s1\<lparr>lastRequestDataRef :=
                     (case p2 of None \<Rightarrow> lastRequestDataRef s1 | Some d \<Rightarrow> Some d)\<rparr>, None)"
    using execute_call_started(1-3) [OF assms(1)] assms(2)
    by (cases p2) (auto simp: execute_call_def Let_def)
  show "actionCalls s1 =
           actionCalls s0 @ (case flight rq of Invoked formData \<Rightarrow> [formData] | NotInvoked r \<Rightarrow> [])"
    by (rule execute_call_log [OF assms(1)])
qed

text \<open>The state after \<open>execute({})\<close> on a fresh hook at time 5000.\<close>

lemma first_call:
  "execute_call sample_js default_options False 5000 (Some (RecordP (Obj []))) initial_session =
     Some (initial_session\<lparr>loading := True, lastRequestDataRef := Some (RecordP (Obj [])),
             abortControllerRef := Some 0, lastRequestTimeRef := 5000, controllers := Suc 0,
             actionCalls := [[]]\<rparr>,
           Some \<lparr>signal = 0, flight = Invoked []\<rparr>)"
  by (simp add: execute_call_def Let_def abort_current_def serverActionRequest_call_def
      objectToFormData_empty initial_session_def)

theorem execute_dedup_witness:
  "execute_call sample_js default_options True 5100 None
      (initial_session\<lparr>loading := True, lastRequestDataRef := Some (RecordP (Obj [])),
             abortControllerRef := Some 0, lastRequestTimeRef := 5000, controllers := Suc 0,
             actionCalls := [[]]\<rparr>)
   = Some (initial_session\<lparr>loading := True, lastRequestDataRef := Some (RecordP (Obj [])),
             abortControllerRef := Some 0, lastRequestTimeRef := 5000, controllers := Suc 0,
             actionCalls := [[]]\<rparr>, None)"
  using execute_dedup [OF first_call, of 5100 None]
  by simp

text \<open>
  The claim as stated fails when the second call carries a payload: the
  payload is remembered before the deduplication guard is reached.
\<close>

theorem execute_dedup_counterexample:
  "map_option (\<lambda>(s, rq). lastRequestDataRef s)
     (execute_call sample_js default_options True 5100 (Some (FormDataP [(''id'', EStr ''b'')]))
        (initial_session\<lparr>loading := True, lastRequestDataRef := Some (RecordP (Obj [])),
             abortControllerRef := Some 0, lastRequestTimeRef := 5000, controllers := Suc 0,
             actionCalls := [[]]\<rparr>))
   = Some (Some (FormDataP [(''id'', EStr ''b'')]))"
  by (simp add: execute_call_def Let_def)

text \<open>
  Claim C10, as amended.  When \<open>execute\<close> is called with no payload while none is
  remembered, and the call passes the condition gate and the deduplication
  guard, the action is called with the empty \<open>FormData\<close>, the encoding of \<open>{}\<close>.
\<close>

theorem execute_without_payload:
  assumes "condition opts \<noteq> Some False"
      and "\<not> (now - lastRequestTimeRef s < dedupingInterval opts \<and> seenLoading)"
      and "lastRequestDataRef s = None"
  shows "\<exists>s' c. execute_call js opts seenLoading now None s =
                  Some (s', Some \<lparr>signal = c, flight = Invoked []\<rparr>) \<and>
                actionCalls s' = actionCalls s @ [[]]"
  using assms
  by (auto simp: execute_call_def Let_def abort_current_def serverActionRequest_call_def
      objectToFormData_empty split: option.splits)

theorem execute_without_payload_witness:
  "\<exists>s' c. execute_call sample_js default_options False 5000 None initial_session =
                  Some (s', Some \<lparr>signal = c, flight = Invoked []\<rparr>) \<and>
                actionCalls s' = [[]]"
  using execute_without_payload [of default_options 5000 initial_session False sample_js]
  by simp

text \<open>
  The claim as stated fails when the condition gate is closed: nothing is
  called.
\<close>

theorem execute_without_payload_counterexample:
  "execute_call sample_js (default_options\<lparr>condition := Some False\<rparr>) False 5000 None initial_session
     = Some (initial_session, None)"
  by (simp add: execute_call_def)



lemma execute_call_refs:
  assumes "execute_call js opts seen now p s = Some (s', rq)"
  shows "aborted s \<subseteq> aborted s'" "held_or_aborted c s \<Longrightarrow> held_or_aborted c s'"
  using assms
  by (auto simp: execute_call_def Let_def abort_current_def held_or_aborted_def
      split: if_splits option.splits in_flight.splits)

lemma execute_resume_refs:
  "aborted (execute_resume js opts sig r s) = aborted s"
  "abortControllerRef (execute_resume js opts sig r s) = abortControllerRef s"
  by (auto simp: execute_resume_def Let_def call_onError_def call_onSuccess_def
      execute_catch_def start_cache_timeout_def clear_cache_timeout_def
      split: option.splits prod.splits response.splits sum.splits)

lemma apply_event_refs:
  assumes "apply_event js ev s = Some s'"
  shows "aborted s \<subseteq> aborted s'" "held_or_aborted c s \<Longrightarrow> held_or_aborted c s'"
proof -
  have "aborted s \<subseteq> aborted s' \<and> (held_or_aborted c s \<longrightarrow> held_or_aborted c s')"
  proof (cases ev)
    case (Execute opts seen now p)
    with assms obtain rq where "execute_call js opts seen now p s = Some (s', rq)"
      by auto
    then show ?thesis using execute_call_refs by blast
  next
    case (Refetch opts seen now)
    with assms obtain rq where
      "execute_call js opts seen now (lastRequestDataRef s) s = Some (s', rq)"
      by (auto simp: refetch_def)
    then show ?thesis using execute_call_refs by blast
  next
    case (Deliver opts p a)
    with assms show ?thesis
      by (auto simp: deliver_def execute_resume_refs held_or_aborted_def)
  next
    case Reset
    with assms show ?thesis
      by (auto simp: reset_def abort_current_def clear_cache_timeout_def held_or_aborted_def
          split: option.splits)
  next
    case (Mutate v)
    with assms show ?thesis
      by (auto simp: mutate_def clear_cache_timeout_def held_or_aborted_def split: option.splits)
  next
    case (OptimisticMutate f)
    with assms show ?thesis
      by (auto simp: optimisticMutate_def held_or_aborted_def)
  next
    case (CacheTimeout t)
    with assms show ?thesis
      by (auto simp: cache_timeout_fires_def held_or_aborted_def split: if_splits)
  next
    case Unmount
    with assms show ?thesis
      by (auto simp: unmount_def abort_current_def clear_cache_timeout_def held_or_aborted_def
          split: option.splits)
  qed
  then show "aborted s \<subseteq> aborted s'" "held_or_aborted c s \<Longrightarrow> held_or_aborted c s'"
    by auto
qed

lemma run_refs:
  assumes "run js evs s = Some s'"
  shows "aborted s \<subseteq> aborted s'" "held_or_aborted c s \<Longrightarrow> held_or_aborted c s'"
proof -
  have "aborted s \<subseteq> aborted s' \<and> (held_or_aborted c s \<longrightarrow> held_or_aborted c s')"
    using assms
  proof (induction evs arbitrary: s)
    case Nil
    then show ?case by simp
  next
    case (Cons ev evs)
    from Cons.prems obtain s1 where s1: "apply_event js ev s = Some s1" "run js evs s1 = Some s'"
      by (auto split: option.splits)
    from Cons.IH [OF s1(2)] apply_event_refs [OF s1(1)] show ?case
      by blast
  qed
  then show "aborted s \<subseteq> aborted s'" "held_or_aborted c s \<Longrightarrow> held_or_aborted c s'"
    by auto
qed

text \<open>
  Claim C2, as amended.  When \<open>execute\<close> has started a request and a later call
  of \<open>execute\<close> starts another one (it passes the condition gate and the
  deduplication guard), then, whatever else happens to the hook in between and
  afterwards, the arrival of the first request's result leaves the whole state
  unchanged, \<open>data\<close>, \<open>error\<close> and \<open>loading\<close> included, and calls no callback.
\<close>

theorem superseded_result_discarded:
  assumes first: "execute_call js opts1 seen1 t1 p1 s0 = Some (s1, Some rq1)"
      and between: "run js evs1 s1 = Some s1'"
      and second: "execute_call js opts2 seen2 t2 p2 s1' = Some (s2, Some rq2)"
      and later: "run js evs2 s2 = Some s3"
  shows "deliver js opts3 rq1 a s3 = s3"
proof -
  have "held_or_aborted (signal rq1) s1"
    using execute_call_started(4) [OF first] by (simp add: held_or_aborted_def)
  then have "held_or_aborted (signal rq1) s1'"
    by (rule run_refs(2) [OF between])
  then have "signal rq1 \<in> aborted s2"
    using execute_call_started(5,6) [OF second] by (auto simp: held_or_aborted_def)
  then have "signal rq1 \<in> aborted s3"
    using run_refs(1) [OF later] by blast
  then show ?thesis
    by (simp add: deliver_def execute_resume_def)
qed


theorem superseded_result_discarded_witness:
  "deliver sample_js default_options \<lparr>signal = 0, flight = Invoked []\<rparr>
     (ActionResolved (Success (Str ''done'') (Str ''first'')))
     (initial_session\<lparr>loading := True, data := Undefined, lastRequestDataRef := None,
        abortControllerRef := Some 1, lastRequestTimeRef := 9000, controllers := 2,
        aborted := {0, 1}, actionCalls := [[], []]\<rparr>)
   = initial_session\<lparr>loading := True, data := Undefined, lastRequestDataRef := None,
        abortControllerRef := Some 1, lastRequestTimeRef := 9000, controllers := 2,
        aborted := {0, 1}, actionCalls := [[], []]\<rparr>"
proof -
  let ?s1 = "initial_session\<lparr>loading := True, lastRequestDataRef := Some (RecordP (Obj [])),
             abortControllerRef := Some 0, lastRequestTimeRef := 5000, controllers := Suc 0,
             actionCalls := [[]]\<rparr>"
  let ?s1' = "initial_session\<lparr>loading := True, data := Str ''local'',
             lastRequestDataRef := Some (RecordP (Obj [])),
             abortControllerRef := Some 0, lastRequestTimeRef := 5000, controllers := Suc 0,
             actionCalls := [[]]\<rparr>"
  let ?s2 = "initial_session\<lparr>loading := True, data := Str ''local'',
        lastRequestDataRef := Some (RecordP (Obj [])),
        abortControllerRef := Some 1, lastRequestTimeRef := 9000, controllers := 2,
        aborted := {0}, actionCalls := [[], []]\<rparr>"
  let ?s3 = "initial_session\<lparr>loading := True, data := Undefined, lastRequestDataRef := None,
        abortControllerRef := Some 1, lastRequestTimeRef := 9000, controllers := 2,
        aborted := {0, 1}, actionCalls := [[], []]\<rparr>"
  have between: "run sample_js [Mutate (Str ''local'')] ?s1 = Some ?s1'"
    by (simp add: mutate_def clear_cache_timeout_def initial_session_def)
  have second: "execute_call sample_js default_options True 9000 None ?s1' =
      Some (?s2, Some \<lparr>signal = 1, flight = Invoked []\<rparr>)"
    by (simp add: execute_call_def Let_def abort_current_def serverActionRequest_call_def
        objectToFormData_empty initial_session_def numeral_2_eq_2)
  have later: "run sample_js [Reset] ?s2 = Some ?s3"
    by (auto simp: reset_def abort_current_def clear_cache_timeout_def initial_session_def)
  show ?thesis
    by (rule superseded_result_discarded [OF first_call between second later])
qed

text \<open>
  The claim as stated fails when the second call is stopped by the
  deduplication guard: nothing is superseded, and the first result is stored.
\<close>

theorem superseded_result_counterexample:
  "execute_call sample_js default_options True 5100 None
      (initial_session\<lparr>loading := True, lastRequestDataRef := Some (RecordP (Obj [])),
         abortControllerRef := Some 0, lastRequestTimeRef := 5000, controllers := Suc 0,
         actionCalls := [[]]\<rparr>)
     = Some (initial_session\<lparr>loading := True, lastRequestDataRef := Some (RecordP (Obj [])),
         abortControllerRef := Some 0, lastRequestTimeRef := 5000, controllers := Suc 0,
         actionCalls := [[]]\<rparr>, None) \<and>
   data (deliver sample_js default_options \<lparr>signal = 0, flight = Invoked []\<rparr>
     (ActionResolved (Success (Str ''done'') (Str ''first'')))
     (initial_session\<lparr>loading := True, lastRequestDataRef := Some (RecordP (Obj [])),
         abortControllerRef := Some 0, lastRequestTimeRef := 5000, controllers := Suc 0,
         actionCalls := [[]]\<rparr>)) = Str ''first'' \<and>
   loading (deliver sample_js default_options \<lparr>signal = 0, flight = Invoked []\<rparr>
     (ActionResolved (Success (Str ''done'') (Str ''first'')))
     (initial_session\<lparr>loading := True, lastRequestDataRef := Some (RecordP (Obj [])),
         abortControllerRef := Some 0, lastRequestTimeRef := 5000, controllers := Suc 0,
         actionCalls := [[]]\<rparr>)) = False"
  by (simp add: execute_call_def Let_def deliver_def serverActionRequest_result_def
      execute_resume_def call_onSuccess_def start_cache_timeout_def)

end
